theory Spec2Isabelle
  imports Main "HOL-Library.AList" "HOL-Library.Multiset"
begin

section \<open>Data model: match and timeline records\<close>

text \<open>
  The scripts read two JSON documents per game.  Every \<^verbatim>\<open>d.get("k")\<close> of the source
  is a field of a record here; a field whose key may be missing or null is an option
  (\<open>None\<close> is Python's \<^verbatim>\<open>None\<close>).  Identifiers, timestamps and totals are Python
  integers (\<open>int\<close>), type tags are strings.  A list-valued key read with a default
  (\<^verbatim>\<open>fr.get("events", [])\<close>) is a list, empty when the key is missing.  A dictionary
  with string keys (\<^verbatim>\<open>participantFrames\<close>, an output row) is an association list in
  insertion order: \<open>map_of\<close> looks a key up, \<open>AList.update\<close> assigns to one.
\<close>

record participant =
  participantId :: "int option"
  teamId :: "int option"

record team =
  team_teamId :: "int option"
  win :: "bool option"

datatype cell = CInt int | CStr string | CNone

type_synonym row = "(string \<times> cell) list"

record match_json =
  matchId :: "string option"
  gameCreation :: cell
  gameDuration :: cell
  gameVersion :: cell
  queueId :: cell
  mapId :: cell
  platformId :: cell
  participants :: "participant list"
  teams :: "team list"

record event =
  timestamp :: "int option"
  etype :: "string option"
  killerId :: "int option"
  victimId :: "int option"
  assistingParticipantIds :: "int list option"
  killerTeamId :: "int option"
  buildingType :: "string option"
  monsterType :: "string option"
  creatorId :: "int option"
  wardType :: "string option"

record participant_frame =
  totalGold :: "int option"
  xp :: "int option"
  level :: "int option"
  minionsKilled :: "int option"
  jungleMinionsKilled :: "int option"
  currentGold :: "int option"

record frame =
  frame_timestamp :: "int option"
  participantFrames :: "(string \<times> participant_frame) list"
  events :: "event list"

record tl_json =
  frames :: "frame list"

type_synonym pid2team = "int \<rightharpoonup> int"

text \<open>
  The per-team counter dictionaries (\<^verbatim>\<open>base[team][field]\<close>) are created with every
  key the code uses set to 0, and no other key is ever read or written; they are read
  here as functions from team id and field name to the count.
\<close>

type_synonym counts = "int \<Rightarrow> string \<Rightarrow> int"

definition zero_counts :: counts where
  "zero_counts = (\<lambda>team field. 0)"

section \<open>augment\_objectives.py\<close>

definition CUT10 :: int where "CUT10 = 10 * 60 * 1000"
definition CUT14 :: int where "CUT14 = 14 * 60 * 1000"
definition CUT15 :: int where "CUT15 = 15 * 60 * 1000"

text \<open>
  \<^verbatim>\<open>get_participant_team_map\<close>: a later participant with the same id
  overwrites.
\<close>

fun participant_team_loop :: "participant list \<Rightarrow> pid2team \<Rightarrow> pid2team" where
  "participant_team_loop [] m = m"
| "participant_team_loop (p # ps) m =
     (case (participantId p, teamId p) of
        (Some pid, Some tid) \<Rightarrow> participant_team_loop ps (m(pid \<mapsto> tid))
      | _ \<Rightarrow> participant_team_loop ps m)"

definition get_participant_team_map :: "match_json \<Rightarrow> pid2team" where
  "get_participant_team_map m = participant_team_loop (participants m) Map.empty"

definition team_from_pid :: "int option \<Rightarrow> pid2team \<Rightarrow> int option" where
  "team_from_pid pid p2t = (case pid of None \<Rightarrow> None | Some i \<Rightarrow> p2t i)"

text \<open>\<^verbatim>\<open>team in (100, 200)\<close>, for a team that may be \<^verbatim>\<open>None\<close>.\<close>

definition in_teams :: "int option \<Rightarrow> bool" where
  "in_teams t = (t = Some 100 \<or> t = Some 200)"

definition update_counts :: "counts \<Rightarrow> int option \<Rightarrow> string \<Rightarrow> int \<Rightarrow> counts" where
  "update_counts c t field inc =
     (case t of
        None \<Rightarrow> c
      | Some tm \<Rightarrow>
          if \<not> in_teams (Some tm) then c
          else c(tm := (c tm)(field := c tm field + inc)))"

text \<open>
  The loop \<^verbatim>\<open>for ap in assists\<close> around
  \<^verbatim>\<open>update_counts(base, team_from_pid(ap, pid2team), field, 1)\<close>.
\<close>

fun update_assists :: "pid2team \<Rightarrow> string \<Rightarrow> int list \<Rightarrow> counts \<Rightarrow> counts" where
  "update_assists p2t field [] c = c"
| "update_assists p2t field (ap # aps) c =
     update_assists p2t field aps (update_counts c (team_from_pid (Some ap) p2t) field 1)"

text \<open>
  \<^verbatim>\<open>if first_x_team == 0 and killer_team in (100, 200): first_x_team = killer_team\<close>,
  the statement that guards each of the four markers.
\<close>

definition latch :: "int \<Rightarrow> int option \<Rightarrow> int" where
  "latch first_team killer_team =
     (case killer_team of
        None \<Rightarrow> first_team
      | Some t \<Rightarrow> if first_team = 0 \<and> in_teams (Some t) then t else first_team)"

text \<open>
  The fallback to the event's own team field:
  \<^verbatim>\<open>if killer_team not in (100, 200):\<close> read \<^verbatim>\<open>kt = ev.get("killerTeamId")\<close>, and
  \<^verbatim>\<open>if kt in (100, 200): killer_team = kt\<close>.
\<close>

definition killer_team_fallback :: "int option \<Rightarrow> event \<Rightarrow> int option" where
  "killer_team_fallback killer_team ev =
     (if \<not> in_teams killer_team then
        (if in_teams (killerTeamId ev) then killerTeamId ev else killer_team)
      else killer_team)"

record obj_state =
  base :: counts
  first_blood_team :: int
  first_drake_team :: int
  first_tower_team :: int
  first_herald_team :: int

definition init_state :: obj_state where
  "init_state = \<lparr>base = zero_counts, first_blood_team = 0, first_drake_team = 0,
                  first_tower_team = 0, first_herald_team = 0\<rparr>"

definition champion_kill :: "pid2team \<Rightarrow> int \<Rightarrow> event \<Rightarrow> obj_state \<Rightarrow> obj_state" where
  "champion_kill p2t ts ev st =
     (let killer_team = team_from_pid (killerId ev) p2t;
          victim_team = team_from_pid (victimId ev) p2t;
          assists = (case assistingParticipantIds ev of None \<Rightarrow> [] | Some l \<Rightarrow> l);
          fb = latch (first_blood_team st) killer_team;
          b10 = (if ts \<le> CUT10 then
                   update_assists p2t ''a10'' assists
                     (update_counts (update_counts (base st) killer_team ''k10'' 1)
                        victim_team ''d10'' 1)
                 else base st);
          b15 = update_assists p2t ''a15'' assists
                  (update_counts (update_counts b10 killer_team ''k15'' 1)
                     victim_team ''d15'' 1)
      in st\<lparr>base := b15, first_blood_team := fb\<rparr>)"

definition turret_plate :: "pid2team \<Rightarrow> int \<Rightarrow> event \<Rightarrow> obj_state \<Rightarrow> obj_state" where
  "turret_plate p2t ts ev st =
     (if ts \<le> CUT14 then
        st\<lparr>base := update_counts (base st) (team_from_pid (killerId ev) p2t) ''plates14'' 1\<rparr>
      else st)"

definition building_kill :: "pid2team \<Rightarrow> event \<Rightarrow> obj_state \<Rightarrow> obj_state" where
  "building_kill p2t ev st =
     (if buildingType ev = Some ''TOWER_BUILDING'' then
        (let killer_team = killer_team_fallback (team_from_pid (killerId ev) p2t) ev
         in st\<lparr>base := update_counts (base st) killer_team ''towers15'' 1,
                first_tower_team := latch (first_tower_team st) killer_team\<rparr>)
      else st)"

definition elite_monster_kill :: "pid2team \<Rightarrow> event \<Rightarrow> obj_state \<Rightarrow> obj_state" where
  "elite_monster_kill p2t ev st =
     (let killer_team = killer_team_fallback (team_from_pid (killerId ev) p2t) ev
      in if monsterType ev = Some ''DRAGON'' then
           st\<lparr>base := update_counts (base st) killer_team ''drakes15'' 1,
                first_drake_team := latch (first_drake_team st) killer_team\<rparr>
         else if monsterType ev = Some ''RIFTHERALD'' then
           st\<lparr>base := update_counts (base st) killer_team ''herald15'' 1,
                first_herald_team := latch (first_herald_team st) killer_team\<rparr>
         else st)"

text \<open>
  The body of the inner loop of \<^verbatim>\<open>compute_features\<close>, for one event.
\<close>

definition process_event :: "pid2team \<Rightarrow> event \<Rightarrow> obj_state \<Rightarrow> obj_state" where
  "process_event p2t ev st =
     (case timestamp ev of
        None \<Rightarrow> st
      | Some ts \<Rightarrow>
          if ts > CUT15 then st
          else if etype ev = Some ''CHAMPION_KILL'' then champion_kill p2t ts ev st
          else if etype ev = Some ''TURRET_PLATE_DESTROYED'' then turret_plate p2t ts ev st
          else if etype ev = Some ''BUILDING_KILL'' then building_kill p2t ev st
          else if etype ev = Some ''ELITE_MONSTER_KILL'' then elite_monster_kill p2t ev st
          else st)"

fun scan_events :: "pid2team \<Rightarrow> event list \<Rightarrow> obj_state \<Rightarrow> obj_state" where
  "scan_events p2t [] st = st"
| "scan_events p2t (ev # evs) st = scan_events p2t evs (process_event p2t ev st)"

fun scan_frames :: "pid2team \<Rightarrow> frame list \<Rightarrow> obj_state \<Rightarrow> obj_state" where
  "scan_frames p2t [] st = st"
| "scan_frames p2t (fr # frs) st = scan_frames p2t frs (scan_events p2t (events fr) st)"

definition diff :: "counts \<Rightarrow> string \<Rightarrow> int" where
  "diff c field = c 100 field - c 200 field"

definition first_enc :: "int \<Rightarrow> int" where
  "first_enc t = (if t = 100 then 1 else if t = 200 then - 1 else 0)"

definition features_row :: "string \<Rightarrow> obj_state \<Rightarrow> row" where
  "features_row match_id st =
     [(''match_id'', CStr match_id),
      (''diff_k10'', CInt (diff (base st) ''k10'')),
      (''diff_d10'', CInt (diff (base st) ''d10'')),
      (''diff_a10'', CInt (diff (base st) ''a10'')),
      (''diff_k15'', CInt (diff (base st) ''k15'')),
      (''diff_d15'', CInt (diff (base st) ''d15'')),
      (''diff_a15'', CInt (diff (base st) ''a15'')),
      (''diff_plates14'', CInt (diff (base st) ''plates14'')),
      (''diff_towers15'', CInt (diff (base st) ''towers15'')),
      (''diff_drakes15'', CInt (diff (base st) ''drakes15'')),
      (''diff_herald15'', CInt (diff (base st) ''herald15'')),
      (''first_blood'', CInt (first_enc (first_blood_team st))),
      (''first_drake'', CInt (first_enc (first_drake_team st))),
      (''first_tower'', CInt (first_enc (first_tower_team st))),
      (''first_herald'', CInt (first_enc (first_herald_team st)))]"

definition compute_features :: "string \<Rightarrow> match_json \<Rightarrow> tl_json \<Rightarrow> row" where
  "compute_features match_id m tlj =
     features_row match_id
       (scan_frames (get_participant_team_map m) (frames tlj) init_state)"

section \<open>augment\_more.py\<close>

definition CUT8 :: int where "CUT8 = 8 * 60 * 1000"
definition CUT12 :: int where "CUT12 = 12 * 60 * 1000"

definition get_pid2team :: "match_json \<Rightarrow> pid2team" where
  "get_pid2team m = participant_team_loop (participants m) Map.empty"

text \<open>
  The loop of \<^verbatim>\<open>pick_frame\<close>: a frame without timestamp is passed over, a frame past
  the cutoff ends the loop (\<^verbatim>\<open>break\<close>).
\<close>

fun pick_loop :: "frame list \<Rightarrow> int \<Rightarrow> frame option \<Rightarrow> frame option" where
  "pick_loop [] cut_ms best = best"
| "pick_loop (fr # frs) cut_ms best =
     (case frame_timestamp fr of
        None \<Rightarrow> pick_loop frs cut_ms best
      | Some ts \<Rightarrow> if ts \<le> cut_ms then pick_loop frs cut_ms (Some fr) else best)"

definition pick_frame :: "frame list \<Rightarrow> int \<Rightarrow> frame option" where
  "pick_frame frs cut_ms =
     (case pick_loop frs cut_ms None of
        Some best \<Rightarrow> Some best
      | None \<Rightarrow> (case frs of [] \<Rightarrow> None | fr0 # _ \<Rightarrow> Some fr0))"

text \<open>
  \<^verbatim>\<open>x.get(k, 0) or 0\<close> and \<^verbatim>\<open>x.get(k) or 0\<close>
\<close>

definition or0 :: "int option \<Rightarrow> int" where
  "or0 v = (case v of None \<Rightarrow> 0 | Some n \<Rightarrow> n)"

text \<open>\<^verbatim>\<open>totals[tid][field] += v\<close>\<close>

definition add_to :: "counts \<Rightarrow> int \<Rightarrow> string \<Rightarrow> int \<Rightarrow> counts" where
  "add_to c tid field v = c(tid := (c tid)(field := c tid field + v))"

text \<open>
  The loop of \<^verbatim>\<open>sum_team_from_frame\<close> over \<^verbatim>\<open>pf.items()\<close>.  The builtin
  \<^verbatim>\<open>int(pid_str)\<close> inside \<^verbatim>\<open>try\<close> is the parameter \<open>to_int\<close>: \<open>None\<close> where it
  raises.
\<close>

fun sum_team_loop ::
  "(string \<Rightarrow> int option) \<Rightarrow> pid2team \<Rightarrow> (string \<times> participant_frame) list \<Rightarrow> counts \<Rightarrow> counts"
where
  "sum_team_loop to_int p2t [] totals = totals"
| "sum_team_loop to_int p2t ((pid_str, obj) # rest) totals =
     (case to_int pid_str of
        None \<Rightarrow> sum_team_loop to_int p2t rest totals
      | Some pid \<Rightarrow>
          (case p2t pid of
             None \<Rightarrow> sum_team_loop to_int p2t rest totals
           | Some tid \<Rightarrow>
               if \<not> in_teams (Some tid) then sum_team_loop to_int p2t rest totals
               else
                 (let gold = or0 (totalGold obj);
                      xpv = or0 (xp obj);
                      lvl = or0 (level obj);
                      cs = or0 (minionsKilled obj) + or0 (jungleMinionsKilled obj)
                  in sum_team_loop to_int p2t rest
                       (add_to (add_to (add_to (add_to totals tid ''gold'' gold)
                          tid ''xp'' xpv) tid ''cs'' cs) tid ''lvl'' lvl))))"

definition sum_team_from_frame ::
  "(string \<Rightarrow> int option) \<Rightarrow> frame option \<Rightarrow> pid2team \<Rightarrow> counts"
where
  "sum_team_from_frame to_int fr p2t =
     (let pf = (case fr of None \<Rightarrow> [] | Some f \<Rightarrow> participantFrames f)
      in sum_team_loop to_int p2t pf zero_counts)"

definition ward_placed :: "pid2team \<Rightarrow> int \<Rightarrow> event \<Rightarrow> counts \<Rightarrow> counts" where
  "ward_placed p2t ts ev c =
     (case team_from_pid (creatorId ev) p2t of
        None \<Rightarrow> c
      | Some tid \<Rightarrow>
          if \<not> in_teams (Some tid) then c
          else
            (let ward_type = (case wardType ev of None \<Rightarrow> [] | Some w \<Rightarrow> w);
                 c1 = (if ts \<le> CUT10 then
                         (let c0 = add_to c tid ''wp10'' 1
                          in if ward_type = ''CONTROL_WARD'' then add_to c0 tid ''cwp10'' 1
                             else c0)
                       else c);
                 c2 = add_to c1 tid ''wp15'' 1
             in if ward_type = ''CONTROL_WARD'' then add_to c2 tid ''cwp15'' 1 else c2))"

definition ward_kill :: "pid2team \<Rightarrow> int \<Rightarrow> event \<Rightarrow> counts \<Rightarrow> counts" where
  "ward_kill p2t ts ev c =
     (case team_from_pid (killerId ev) p2t of
        None \<Rightarrow> c
      | Some tid \<Rightarrow>
          if \<not> in_teams (Some tid) then c
          else
            (let c1 = (if ts \<le> CUT10 then add_to c tid ''wk10'' 1 else c)
             in add_to c1 tid ''wk15'' 1))"

text \<open>
  The body of the inner loop of \<^verbatim>\<open>count_wards\<close>, for one event.
\<close>

definition ward_event :: "pid2team \<Rightarrow> event \<Rightarrow> counts \<Rightarrow> counts" where
  "ward_event p2t ev c =
     (case timestamp ev of
        None \<Rightarrow> c
      | Some ts \<Rightarrow>
          if ts > CUT15 then c
          else if etype ev = Some ''WARD_PLACED'' then ward_placed p2t ts ev c
          else if etype ev = Some ''WARD_KILL'' then ward_kill p2t ts ev c
          else c)"

fun ward_events :: "pid2team \<Rightarrow> event list \<Rightarrow> counts \<Rightarrow> counts" where
  "ward_events p2t [] c = c"
| "ward_events p2t (ev # evs) c = ward_events p2t evs (ward_event p2t ev c)"

fun ward_frames :: "pid2team \<Rightarrow> frame list \<Rightarrow> counts \<Rightarrow> counts" where
  "ward_frames p2t [] c = c"
| "ward_frames p2t (fr # frs) c = ward_frames p2t frs (ward_events p2t (events fr) c)"

definition count_wards :: "frame list \<Rightarrow> pid2team \<Rightarrow> row" where
  "count_wards frs p2t =
     (let c = ward_frames p2t frs zero_counts
      in [(''diff_wardsPlaced10'', CInt (diff c ''wp10'')),
          (''diff_wardsKilled10'', CInt (diff c ''wk10'')),
          (''diff_ctrlWardsPlaced10'', CInt (diff c ''cwp10'')),
          (''diff_wardsPlaced15'', CInt (diff c ''wp15'')),
          (''diff_wardsKilled15'', CInt (diff c ''wk15'')),
          (''diff_ctrlWardsPlaced15'', CInt (diff c ''cwp15''))])"

text \<open>
  \<^verbatim>\<open>row.update(other)\<close>: an existing key keeps its place, a new key is
  appended.
\<close>

fun dict_update :: "row \<Rightarrow> row \<Rightarrow> row" where
  "dict_update r [] = r"
| "dict_update r ((k, v) # kvs) = dict_update (AList.update k v r) kvs"

text \<open>
  \<^verbatim>\<open>def d(tot, field): return tot[100][field] - tot[200][field]\<close>
\<close>

definition d :: "counts \<Rightarrow> string \<Rightarrow> int" where
  "d tot field = tot 100 field - tot 200 field"

text \<open>
  The row that \<^verbatim>\<open>main\<close> of augment\_more.py builds for one match.
\<close>

definition more_row :: "(string \<Rightarrow> int option) \<Rightarrow> string \<Rightarrow> match_json \<Rightarrow> tl_json \<Rightarrow> row" where
  "more_row to_int match_id m tlj =
     (let pid2team = get_pid2team m;
          frs = frames tlj;
          fr8 = pick_frame frs CUT8;
          fr12 = pick_frame frs CUT12;
          t8 = sum_team_from_frame to_int fr8 pid2team;
          t12 = sum_team_from_frame to_int fr12 pid2team;
          ward_feats = count_wards frs pid2team
      in dict_update
           [(''match_id'', CStr match_id),
            (''delta_m8_gold_100_minus_200'', CInt (d t8 ''gold'')),
            (''delta_m8_xp_100_minus_200'', CInt (d t8 ''xp'')),
            (''delta_m8_cs_100_minus_200'', CInt (d t8 ''cs'')),
            (''delta_m8_lvl_100_minus_200'', CInt (d t8 ''lvl'')),
            (''delta_m12_gold_100_minus_200'', CInt (d t12 ''gold'')),
            (''delta_m12_xp_100_minus_200'', CInt (d t12 ''xp'')),
            (''delta_m12_cs_100_minus_200'', CInt (d t12 ''cs'')),
            (''delta_m12_lvl_100_minus_200'', CInt (d t12 ''lvl''))]
           ward_feats)"

section \<open>build\_dataset.py\<close>

definition SNAP_MINUTES :: "int list" where
  "SNAP_MINUTES = [10, 15]"

text \<open>
  Python's \<^verbatim>\<open>str\<close> on an integer: its decimal digits, after a minus sign
  if negative.
\<close>

fun digits10 :: "nat \<Rightarrow> string" where
  "digits10 n =
     (if n < 10 then [''0123456789'' ! n]
      else digits10 (n div 10) @ [''0123456789'' ! (n mod 10)])"

declare digits10.simps [simp del]

definition str :: "int \<Rightarrow> string" where
  "str i = (if i < 0 then CHR ''-'' # digits10 (nat (- i)) else digits10 (nat i))"

text \<open>
  \<^verbatim>\<open>str(pid)\<close> for a participant id that
  \<^verbatim>\<open>p.get("participantId")\<close> may leave \<^verbatim>\<open>None\<close>.
\<close>

definition str_pid :: "int option \<Rightarrow> string" where
  "str_pid pid = (case pid of None \<Rightarrow> ''None'' | Some i \<Rightarrow> str i)"

definition get_frame :: "tl_json \<Rightarrow> int \<Rightarrow> frame option" where
  "get_frame tlj minute =
     (let frs = frames tlj
      in if frs = [] then None
         else if minute < 0 \<or> minute \<ge> int (length frs) then None
         else Some (frs ! nat minute))"

record team_acc =
  total_gold :: int
  total_xp :: int
  total_cs :: int
  total_lvl :: int
  ok :: int

definition acc0 :: team_acc where
  "acc0 = \<lparr>total_gold = 0, total_xp = 0, total_cs = 0, total_lvl = 0, ok = 0\<rparr>"

text \<open>
  The loop of \<^verbatim>\<open>extract_team_snapshot\<close> over the team's participant ids.
\<close>

fun team_loop ::
  "(string \<times> participant_frame) list \<Rightarrow> int option list \<Rightarrow> team_acc \<Rightarrow> team_acc"
where
  "team_loop pf [] acc = acc"
| "team_loop pf (pid # pids) acc =
     (case map_of pf (str_pid pid) of
        None \<Rightarrow> team_loop pf pids acc
      | Some x \<Rightarrow>
          (let cs = or0 (minionsKilled x) + or0 (jungleMinionsKilled x)
           in case (totalGold x, xp x, level x) of
                (Some g, Some xpv, Some lvl) \<Rightarrow>
                  team_loop pf pids
                    (acc\<lparr>total_gold := total_gold acc + g,
                         total_xp := total_xp acc + xpv,
                         total_cs := total_cs acc + cs,
                         total_lvl := total_lvl acc + lvl,
                         ok := ok acc + 1\<rparr>)
              | _ \<Rightarrow> team_loop pf pids acc))"

definition extract_team_snapshot ::
  "tl_json \<Rightarrow> int \<Rightarrow> int option list \<Rightarrow> (string \<times> int) list"
where
  "extract_team_snapshot tlj minute team_participant_ids =
     (case get_frame tlj minute of
        None \<Rightarrow> []
      | Some fr \<Rightarrow>
          (let acc = team_loop (participantFrames fr) team_participant_ids acc0
           in if ok acc = 0 then []
              else [(''team_m'' @ str minute @ ''_totalGold'', total_gold acc),
                    (''team_m'' @ str minute @ ''_xp'', total_xp acc),
                    (''team_m'' @ str minute @ ''_cs'', total_cs acc),
                    (''team_m'' @ str minute @ ''_levelSum'', total_lvl acc),
                    (''team_m'' @ str minute @ ''_participants_ok'', ok acc)]))"

text \<open>
  The comprehension
  \<^verbatim>\<open>[p.get("participantId") for p in participants if p.get("teamId") == t]\<close>.
\<close>

definition team_ids :: "participant list \<Rightarrow> int \<Rightarrow> int option list" where
  "team_ids ps t = map participantId (filter (\<lambda>p. teamId p = Some t) ps)"

text \<open>\<^verbatim>\<open>for k, v in s.items(): team_base[prefix + k] = v\<close>\<close>

fun put_items :: "string \<Rightarrow> (string \<times> int) list \<Rightarrow> row \<Rightarrow> row" where
  "put_items pre [] team_base = team_base"
| "put_items pre ((k, v) # kvs) team_base =
     put_items pre kvs (AList.update (pre @ k) (CInt v) team_base)"

text \<open>
  One round of the loop \<^verbatim>\<open>for m in SNAP_MINUTES\<close> of
  \<^verbatim>\<open>main\<close>.
\<close>

definition snapshot_minute ::
  "tl_json \<Rightarrow> int option list \<Rightarrow> int option list \<Rightarrow> int \<Rightarrow> row \<Rightarrow> row"
where
  "snapshot_minute tlj team100 team200 m team_base =
     (let s100 = extract_team_snapshot tlj m team100;
          s200 = extract_team_snapshot tlj m team200;
          tb1 = put_items ''t200_'' s200 (put_items ''t100_'' s100 team_base);
          g100 = map_of s100 (''team_m'' @ str m @ ''_totalGold'');
          g200 = map_of s200 (''team_m'' @ str m @ ''_totalGold'');
          tb2 = (case (g100, g200) of
                   (Some a, Some b) \<Rightarrow>
                     AList.update (''delta_m'' @ str m @ ''_gold_100_minus_200'') (CInt (a - b)) tb1
                 | _ \<Rightarrow> tb1);
          xp100 = map_of s100 (''team_m'' @ str m @ ''_xp'');
          xp200 = map_of s200 (''team_m'' @ str m @ ''_xp'')
      in case (xp100, xp200) of
           (Some a, Some b) \<Rightarrow>
             AList.update (''delta_m'' @ str m @ ''_xp_100_minus_200'') (CInt (a - b)) tb2
         | _ \<Rightarrow> tb2)"

fun snapshot_minutes ::
  "tl_json \<Rightarrow> int option list \<Rightarrow> int option list \<Rightarrow> int list \<Rightarrow> row \<Rightarrow> row"
where
  "snapshot_minutes tlj team100 team200 [] team_base = team_base"
| "snapshot_minutes tlj team100 team200 (m # ms) team_base =
     snapshot_minutes tlj team100 team200 ms (snapshot_minute tlj team100 team200 m team_base)"

text \<open>\<^verbatim>\<open>1 if t.get("win") else 0\<close>\<close>

definition win_cell :: "bool option \<Rightarrow> cell" where
  "win_cell w = (if w = Some True then CInt 1 else CInt 0)"

fun win_loop :: "team list \<Rightarrow> cell \<times> cell \<Rightarrow> cell \<times> cell" where
  "win_loop [] wins = wins"
| "win_loop (t # ts) (win100, win200) =
     (let win100' = (if team_teamId t = Some 100 then win_cell (win t) else win100);
          win200' = (if team_teamId t = Some 200 then win_cell (win t) else win200)
      in win_loop ts (win100', win200'))"

definition base_match :: "string \<Rightarrow> match_json \<Rightarrow> row" where
  "base_match stem m =
     [(''matchId'', CStr (case matchId m of None \<Rightarrow> stem | Some s \<Rightarrow> if s = [] then stem else s)),
      (''gameCreation'', gameCreation m),
      (''gameDuration'', gameDuration m),
      (''gameVersion'', gameVersion m),
      (''queueId'', queueId m),
      (''mapId'', mapId m),
      (''platformId'', platformId m)]"

text \<open>
  The team-level row that \<^verbatim>\<open>main\<close> appends for one match file with a timeline;
  \<open>None\<close> when the match is passed over (\<^verbatim>\<open>len(participants) != 10\<close>).
\<close>

definition team_row :: "string \<Rightarrow> match_json \<Rightarrow> tl_json \<Rightarrow> row option" where
  "team_row stem m tlj =
     (if length (participants m) \<noteq> 10 then None
      else
        (let team100 = team_ids (participants m) 100;
             team200 = team_ids (participants m) 200;
             team_base = snapshot_minutes tlj team100 team200 SNAP_MINUTES (base_match stem m);
             (win100, win200) = win_loop (teams m) (CNone, CNone)
         in Some (AList.update ''team200_win'' win200
                    (AList.update ''team100_win'' win100 team_base))))"

section \<open>Notions used in the statements, and example inputs\<close>

text \<open>
  What one champion kill is worth to team \<open>tm\<close>: one kill if the killer resolves to it,
  one death if the victim does, one assist for each assisting participant that does.
\<close>

definition credit :: "int option \<Rightarrow> int \<Rightarrow> int" where
  "credit t tm = (if t = Some tm then 1 else 0)"

definition assist_credit :: "pid2team \<Rightarrow> event \<Rightarrow> int \<Rightarrow> int" where
  "assist_credit p2t ev tm =
     int (length (filter (\<lambda>ap. p2t ap = Some tm)
       (case assistingParticipantIds ev of None \<Rightarrow> [] | Some l \<Rightarrow> l)))"

definition ex_participants :: "participant list" where
  "ex_participants =
     [\<lparr>participantId = Some 1, teamId = Some 100\<rparr>, \<lparr>participantId = Some 2, teamId = Some 100\<rparr>,
      \<lparr>participantId = Some 3, teamId = Some 100\<rparr>, \<lparr>participantId = Some 4, teamId = Some 100\<rparr>,
      \<lparr>participantId = Some 5, teamId = Some 100\<rparr>, \<lparr>participantId = Some 6, teamId = Some 200\<rparr>,
      \<lparr>participantId = Some 7, teamId = Some 200\<rparr>, \<lparr>participantId = Some 8, teamId = Some 200\<rparr>,
      \<lparr>participantId = Some 9, teamId = Some 200\<rparr>, \<lparr>participantId = Some 10, teamId = Some 200\<rparr>]"

definition ex_match :: match_json where
  "ex_match = \<lparr>matchId = Some ''EUW1_1'', gameCreation = CInt 0, gameDuration = CInt 1800,
      gameVersion = CStr ''14.1'', queueId = CInt 420, mapId = CInt 11,
      platformId = CStr ''EUW1'', participants = ex_participants, teams = []\<rparr>"

definition ex_event :: "string \<Rightarrow> int \<Rightarrow> event" where
  "ex_event ty ts = \<lparr>timestamp = Some ts, etype = Some ty, killerId = Some 1, victimId = Some 6,
      assistingParticipantIds = None, killerTeamId = None, buildingType = None,
      monsterType = None, creatorId = Some 7, wardType = None\<rparr>"

definition ex_timeline :: "event list \<Rightarrow> tl_json" where
  "ex_timeline evs = \<lparr>frames = [\<lparr>frame_timestamp = Some 0, participantFrames = [], events = []\<rparr>,
      \<lparr>frame_timestamp = Some 60000, participantFrames = [], events = evs\<rparr>]\<rparr>"

text \<open>An event past the 15-minute cutoff, and the timeline without such events.\<close>

definition late :: "event \<Rightarrow> bool" where
  "late ev = (case timestamp ev of None \<Rightarrow> False | Some ts \<Rightarrow> ts > CUT15)"

definition drop_late :: "tl_json \<Rightarrow> tl_json" where
  "drop_late tlj =
     tlj\<lparr>frames := map (\<lambda>fr. fr\<lparr>events := filter (\<lambda>ev. \<not> late ev) (events fr)\<rparr>) (frames tlj)\<rparr>"

text \<open>
  A dragon kill credited through \<^verbatim>\<open>killerTeamId\<close> (killer id 0 is no
  participant).
\<close>

definition ex_dragon :: "int \<Rightarrow> int \<Rightarrow> event" where
  "ex_dragon ts kt = \<lparr>timestamp = Some ts, etype = Some ''ELITE_MONSTER_KILL'', killerId = Some 0,
      victimId = None, assistingParticipantIds = None, killerTeamId = Some kt,
      buildingType = None, monsterType = Some ''DRAGON'', creatorId = None, wardType = None\<rparr>"

text \<open>
  A frame passes the cutoff test of \<^verbatim>\<open>pick_frame\<close> when it has a
  timestamp at or below the cutoff.
\<close>

definition at_or_before :: "int \<Rightarrow> frame \<Rightarrow> bool" where
  "at_or_before cut_ms fr =
     (case frame_timestamp fr of None \<Rightarrow> False | Some ts \<Rightarrow> ts \<le> cut_ms)"

text \<open>
  Frame timestamps are non-decreasing along the list (frames without a timestamp are not
  compared).
\<close>

definition ts_nondecreasing :: "frame list \<Rightarrow> bool" where
  "ts_nondecreasing frs =
     sorted_wrt (\<lambda>a b. case (frame_timestamp a, frame_timestamp b) of
                          (Some ta, Some tb) \<Rightarrow> ta \<le> tb
                        | _ \<Rightarrow> True) frs"

text \<open>Example frames and participant snapshots.\<close>

definition ex_frame :: "int \<Rightarrow> frame" where
  "ex_frame ts = \<lparr>frame_timestamp = Some ts, participantFrames = [], events = []\<rparr>"

text \<open>
  An entry of \<^verbatim>\<open>participantFrames\<close> counts for a team when its key
  converts to a participant id that the match maps to team 100 or 200.
\<close>

definition resolvable :: "(string \<Rightarrow> int option) \<Rightarrow> pid2team \<Rightarrow> string \<times> participant_frame \<Rightarrow> bool" where
  "resolvable to_int p2t entry =
     (case to_int (fst entry) of None \<Rightarrow> False | Some pid \<Rightarrow> in_teams (p2t pid))"

text \<open>The selected frame (if any) has no entry that counts for a team.\<close>

definition no_resolvable :: "(string \<Rightarrow> int option) \<Rightarrow> pid2team \<Rightarrow> frame option \<Rightarrow> bool" where
  "no_resolvable to_int p2t fr =
     (case fr of None \<Rightarrow> True
      | Some f \<Rightarrow> \<forall>entry \<in> set (participantFrames f). \<not> resolvable to_int p2t entry)"

text \<open>
  The four delta columns of minute \<open>mm\<close> in the row of augment\_more.py.
\<close>

definition delta_keys :: "string \<Rightarrow> string list" where
  "delta_keys mm =
     [''delta_m'' @ mm @ ''_gold_100_minus_200'', ''delta_m'' @ mm @ ''_xp_100_minus_200'',
      ''delta_m'' @ mm @ ''_cs_100_minus_200'', ''delta_m'' @ mm @ ''_lvl_100_minus_200'']"

text \<open>
  A reading of \<^verbatim>\<open>int(pid_str)\<close> on the keys of the examples.
\<close>

definition ex_to_int :: "string \<Rightarrow> int option" where
  "ex_to_int s =
     (if s = ''1'' then Some 1 else if s = ''6'' then Some 6 else if s = ''11'' then Some 11
      else None)"

definition ex_pframe :: "int \<Rightarrow> int \<Rightarrow> participant_frame" where
  "ex_pframe g cs = \<lparr>totalGold = Some g, xp = Some 2000, level = Some 5, minionsKilled = Some cs,
      jungleMinionsKilled = Some 0, currentGold = Some 100\<rparr>"

definition ex_stray_timeline :: tl_json where
  "ex_stray_timeline =
     \<lparr>frames = [\<lparr>frame_timestamp = Some 0, participantFrames = [(''11'', ex_pframe 500 3)],
                 events = []\<rparr>]\<rparr>"

text \<open>
  The ids of a team that \<^verbatim>\<open>extract_team_snapshot\<close> aggregates: present in
  the frame under \<^verbatim>\<open>str(pid)\<close>, with total gold, xp and level all given.
\<close>

definition aggregated :: "(string \<times> participant_frame) list \<Rightarrow> int option list \<Rightarrow> int option list" where
  "aggregated pf ids =
     filter (\<lambda>pid. case map_of pf (str_pid pid) of
                      None \<Rightarrow> False
                    | Some x \<Rightarrow> totalGold x \<noteq> None \<and> xp x \<noteq> None \<and> level x \<noteq> None) ids"

text \<open>The ids of a team that are present in the frame.\<close>

definition present :: "(string \<times> participant_frame) list \<Rightarrow> int option list \<Rightarrow> int option list" where
  "present pf ids = filter (\<lambda>pid. map_of pf (str_pid pid) \<noteq> None) ids"

text \<open>
  The creep score of a participant in a frame: minions killed plus jungle minions killed.
\<close>

definition cs_of :: "(string \<times> participant_frame) list \<Rightarrow> int option \<Rightarrow> int" where
  "cs_of pf pid =
     (case map_of pf (str_pid pid) of
        None \<Rightarrow> 0
      | Some x \<Rightarrow> or0 (minionsKilled x) + or0 (jungleMinionsKilled x))"

text \<open>
  A timeline of eleven frames (minutes 0 to 10) whose last frame holds participants 1, 2 and 6;
  participant 2 is there without total gold.
\<close>

definition cx_frame :: frame where
  "cx_frame =
     \<lparr>frame_timestamp = Some 600000,
      participantFrames =
        [(''1'', ex_pframe 3000 30),
         (''2'', \<lparr>totalGold = None, xp = Some 1800, level = Some 5, minionsKilled = Some 15,
                  jungleMinionsKilled = Some 0, currentGold = None\<rparr>),
         (''6'', ex_pframe 2500 20)],
      events = []\<rparr>"

definition cx_timeline :: tl_json where
  "cx_timeline = \<lparr>frames = replicate 10 (ex_frame 0) @ [cx_frame]\<rparr>"

text \<open>
  The delta cell that one round of the loop leaves under a delta key: the difference when both
  totals are there, else what the row held before.
\<close>

definition delta_of :: "int option \<Rightarrow> int option \<Rightarrow> cell option \<Rightarrow> cell option" where
  "delta_of a b before =
     (case (a, b) of (Some x, Some y) \<Rightarrow> Some (CInt (x - y)) | _ \<Rightarrow> before)"

text \<open>
  The example match on the eleven-frame timeline: both teams have a snapshot at minute 10,
  neither has one at minute 15.
\<close>

definition cx_row :: row where
  "cx_row = (case team_row ''EUW1_1'' ex_match cx_timeline of None \<Rightarrow> [] | Some r \<Rightarrow> r)"

text \<open>Modelled from the spec: the merge of two tables (\<^verbatim>\<open>DataFrame.merge(..., how="left")\<close>,
  called by \<^verbatim>\<open>main\<close> of augment\_objectives.py and augment\_more.py) is code of the
  data-frame library, which the repository's sources do not contain.  The spec (4.6) has it
  as a left-outer join on the match-identifier column: every row of the base table, in the
  base table's order, is paired with each row of the feature table that has the same
  identifier, or once with missing values (\<open>None\<close>) when there is none.
\<close>

fun join_row :: "('a \<Rightarrow> 'k) \<Rightarrow> ('b \<Rightarrow> 'k) \<Rightarrow> 'b list \<Rightarrow> 'a \<Rightarrow> ('a \<times> 'b option) list" where
  "join_row left_on right_on feat l =
     (case filter (\<lambda>r. right_on r = left_on l) feat of
        [] \<Rightarrow> [(l, None)]
      | ms \<Rightarrow> map (\<lambda>r. (l, Some r)) ms)"

definition merge_left ::
  "('a \<Rightarrow> 'k) \<Rightarrow> ('b \<Rightarrow> 'k) \<Rightarrow> 'a list \<Rightarrow> 'b list \<Rightarrow> ('a \<times> 'b option) list"
where
  "merge_left left_on right_on base_table feat = concat (map (join_row left_on right_on feat) base_table)"

text \<open>
  The rows that the loops of the two \<^verbatim>\<open>main\<close> functions collect, one per
  timeline file that has a match file: \<open>files\<close> lists the file stems with the two
  parsed documents.
\<close>

definition objectives_rows :: "(string \<times> match_json \<times> tl_json) list \<Rightarrow> row list" where
  "objectives_rows files = map (\<lambda>(match_id, m, tlj). compute_features match_id m tlj) files"

definition more_rows ::
  "(string \<Rightarrow> int option) \<Rightarrow> (string \<times> match_json \<times> tl_json) list \<Rightarrow> row list" where
  "more_rows to_int files = map (\<lambda>(match_id, m, tlj). more_row to_int match_id m tlj) files"

text \<open>
  A base table of three rows, and two timeline files of which only the first belongs to a row of
  the base table.
\<close>

definition ex_teams_table :: "row list" where
  "ex_teams_table =
     [[(''matchId'', CStr ''EUW1_1''), (''team100_win'', CInt 1)],
      [(''matchId'', CStr ''EUW1_2''), (''team100_win'', CInt 0)],
      [(''matchId'', CStr ''EUW1_3''), (''team100_win'', CInt 1)]]"

definition ex_files :: "(string \<times> match_json \<times> tl_json) list" where
  "ex_files = [(''EUW1_1'', ex_match, ex_timeline []), (''EUW1_9'', ex_match, ex_timeline [])]"

text \<open>
  A plate event that the aggregator counts for team \<open>tm\<close>: of type
  \<^verbatim>\<open>TURRET_PLATE_DESTROYED\<close>, stamped at or before 14 minutes, with a destroyer that the
  match maps to \<open>tm\<close>; and the number of such events in a timeline.
\<close>

definition plate_counted :: "pid2team \<Rightarrow> int \<Rightarrow> event \<Rightarrow> bool" where
  "plate_counted p2t tm ev =
     (etype ev = Some ''TURRET_PLATE_DESTROYED'' \<and>
      (case timestamp ev of None \<Rightarrow> False | Some ts \<Rightarrow> ts \<le> CUT14) \<and>
      team_from_pid (killerId ev) p2t = Some tm)"

definition plates_of :: "pid2team \<Rightarrow> int \<Rightarrow> tl_json \<Rightarrow> int" where
  "plates_of p2t tm tlj =
     int (length (filter (plate_counted p2t tm) (concat (map events (frames tlj)))))"

section \<open>Properties of the objective aggregator\<close>

lemma update_counts_credit:
  "in_teams (Some tm) \<Longrightarrow>
   update_counts c t field inc tm f = c tm f + (if f = field then inc * credit t tm else 0)"
  by (auto simp: update_counts_def in_teams_def credit_def split: option.splits)

lemma update_counts_other:
  "f \<noteq> field \<Longrightarrow> update_counts c t field inc tm f = c tm f"
  by (auto simp: update_counts_def split: option.splits)

lemma update_assists_credit:
  "in_teams (Some tm) \<Longrightarrow>
   update_assists p2t field aps c tm f =
     c tm f + (if f = field then int (length (filter (\<lambda>ap. p2t ap = Some tm) aps)) else 0)"
  by (induction aps arbitrary: c)
     (auto simp: update_counts_credit team_from_pid_def credit_def)

lemma update_assists_other:
  "f \<noteq> field \<Longrightarrow> update_assists p2t field aps c tm f = c tm f"
  by (induction aps arbitrary: c) (auto simp: update_counts_other)

lemma champion_kill_early:
  assumes "in_teams (Some tm)" and "ts \<le> CUT10"
  shows "base (champion_kill p2t ts ev st) tm ''k10'' =
           base st tm ''k10'' + credit (team_from_pid (killerId ev) p2t) tm"
    and "base (champion_kill p2t ts ev st) tm ''d10'' =
           base st tm ''d10'' + credit (team_from_pid (victimId ev) p2t) tm"
    and "base (champion_kill p2t ts ev st) tm ''a10'' =
           base st tm ''a10'' + assist_credit p2t ev tm"
  using assms
  by (simp_all add: champion_kill_def Let_def update_assists_credit update_counts_credit
        assist_credit_def)

lemma champion_kill_late:
  assumes "\<not> ts \<le> CUT10"
  shows "base (champion_kill p2t ts ev st) tm ''k10'' = base st tm ''k10''"
    and "base (champion_kill p2t ts ev st) tm ''d10'' = base st tm ''d10''"
    and "base (champion_kill p2t ts ev st) tm ''a10'' = base st tm ''a10''"
  using assms
  by (simp_all add: champion_kill_def Let_def update_assists_other update_counts_other)

lemma champion_kill_15:
  assumes "in_teams (Some tm)"
  shows "base (champion_kill p2t ts ev st) tm ''k15'' =
           base st tm ''k15'' + credit (team_from_pid (killerId ev) p2t) tm"
    and "base (champion_kill p2t ts ev st) tm ''d15'' =
           base st tm ''d15'' + credit (team_from_pid (victimId ev) p2t) tm"
    and "base (champion_kill p2t ts ev st) tm ''a15'' =
           base st tm ''a15'' + assist_credit p2t ev tm"
  using assms
  by (simp_all add: champion_kill_def Let_def update_assists_credit update_counts_credit
        update_assists_other update_counts_other assist_credit_def)

lemma champion_kill_rest:
  assumes "f \<notin> {''k10'', ''d10'', ''a10'', ''k15'', ''d15'', ''a15''}"
  shows "base (champion_kill p2t ts ev st) tm f = base st tm f"
  using assms
  by (simp add: champion_kill_def Let_def update_assists_other update_counts_other)

lemma process_champion_kill:
  "etype ev = Some ''CHAMPION_KILL'' \<Longrightarrow> timestamp ev = Some ts \<Longrightarrow> ts \<le> CUT15 \<Longrightarrow>
     process_event p2t ev st = champion_kill p2t ts ev st"
  by (simp add: process_event_def)

lemma scan_events_append:
  "scan_events p2t (xs @ ys) st = scan_events p2t ys (scan_events p2t xs st)"
  by (induction xs arbitrary: st) auto

lemma scan_frames_concat:
  "scan_frames p2t frs st = scan_events p2t (concat (map events frs)) st"
  by (induction frs arbitrary: st) (auto simp: scan_events_append)

subsection \<open>The example inputs\<close>

lemma ex_pid2team:
  "get_participant_team_map ex_match 1 = Some 100"
  "get_participant_team_map ex_match 6 = Some 200"
  "get_participant_team_map ex_match 7 = Some 200"
  by (simp_all add: get_participant_team_map_def ex_match_def ex_participants_def)

lemma compute_features_single:
  assumes "concat (map events (frames tlj)) = [ev]"
  shows "compute_features match_id m tlj =
           features_row match_id (process_event (get_participant_team_map m) ev init_state)"
  using assms by (simp add: compute_features_def scan_frames_concat)

lemma kill_at_5_example:
  assumes ev: "etype ev = Some ''CHAMPION_KILL''" "timestamp ev = Some 300000"
    and k: "team_from_pid (killerId ev) (get_participant_team_map m) = Some 100"
    and v: "team_from_pid (victimId ev) (get_participant_team_map m) = Some 200"
    and a: "assistingParticipantIds ev = None \<or> assistingParticipantIds ev = Some []"
    and only: "concat (map events (frames tlj)) = [ev]"
  shows "map_of (compute_features match_id m tlj) ''diff_k15'' = Some (CInt 1)"
    and "map_of (compute_features match_id m tlj) ''diff_d15'' = Some (CInt (- 1))"
    and "map_of (compute_features match_id m tlj) ''diff_a15'' = Some (CInt 0)"
    and "map_of (compute_features match_id m tlj) ''first_blood'' = Some (CInt 1)"
    and "map_of (compute_features match_id m tlj) ''diff_k10'' = Some (CInt 1)"
    and "map_of (compute_features match_id m tlj) ''diff_d10'' = Some (CInt (- 1))"
    and "map_of (compute_features match_id m tlj) ''diff_a10'' = Some (CInt 0)"
proof -
  let ?p = "get_participant_team_map m"
  have pe: "process_event ?p ev init_state = champion_kill ?p 300000 ev init_state"
    using ev by (simp add: process_event_def CUT15_def)
  have le: "(300000 :: int) \<le> CUT10" by (simp add: CUT10_def)
  have t: "in_teams (Some 100)" "in_teams (Some 200)" by (simp_all add: in_teams_def)
  have ac: "assist_credit ?p ev tm = 0" for tm
    using a by (auto simp: assist_credit_def)
  have z: "base init_state tm f = 0" for tm f
    by (simp add: init_state_def zero_counts_def)
  have fb: "first_blood_team (champion_kill ?p 300000 ev init_state) = 100"
    using k by (simp add: champion_kill_def Let_def latch_def init_state_def in_teams_def)
  note cf = compute_features_single [OF only] pe features_row_def diff_def
    champion_kill_early [OF _ le] champion_kill_15 k v ac z credit_def t
  show "map_of (compute_features match_id m tlj) ''diff_k15'' = Some (CInt 1)"
    by (simp add: cf)
  show "map_of (compute_features match_id m tlj) ''diff_d15'' = Some (CInt (- 1))"
    by (simp add: cf)
  show "map_of (compute_features match_id m tlj) ''diff_a15'' = Some (CInt 0)"
    by (simp add: cf)
  show "map_of (compute_features match_id m tlj) ''first_blood'' = Some (CInt 1)"
    by (simp add: compute_features_single [OF only] pe features_row_def fb first_enc_def)
  show "map_of (compute_features match_id m tlj) ''diff_k10'' = Some (CInt 1)"
    by (simp add: cf)
  show "map_of (compute_features match_id m tlj) ''diff_d10'' = Some (CInt (- 1))"
    by (simp add: cf)
  show "map_of (compute_features match_id m tlj) ''diff_a10'' = Some (CInt 0)"
    by (simp add: cf)
qed

text \<open>
  Claim C1.  A champion kill inside the 15-minute window adds, for each of the teams 100
  and 200, the team's kill, death and assist credit to the 15-minute counters; when its
  timestamp is at most \<open>CUT10\<close> (600000 ms) it adds the same credit to the 10-minute
  counters, and when it is later the 10-minute counters keep their value.  No other
  counter moves.  In particular a timeline whose only event is a kill at 5 minutes
  (300000 ms), killer on team 100, victim on team 200, no assists, gives
  \<open>diff_k15 = 1\<close>, \<open>diff_d15 = -1\<close>, \<open>first_blood = 1\<close> and the same differences at
  the 10-minute horizon.
\<close>

theorem champion_kill_horizons:
  "(etype ev = Some ''CHAMPION_KILL'' \<and> timestamp ev = Some ts \<and> ts \<le> CUT15 \<and> in_teams (Some tm) \<longrightarrow>
      (let st' = process_event p2t ev st;
           kc = credit (team_from_pid (killerId ev) p2t) tm;
           dc = credit (team_from_pid (victimId ev) p2t) tm;
           ac = assist_credit p2t ev tm
       in base st' tm ''k15'' = base st tm ''k15'' + kc \<and>
          base st' tm ''d15'' = base st tm ''d15'' + dc \<and>
          base st' tm ''a15'' = base st tm ''a15'' + ac \<and>
          (ts \<le> CUT10 \<longrightarrow>
             base st' tm ''k10'' = base st tm ''k10'' + kc \<and>
             base st' tm ''d10'' = base st tm ''d10'' + dc \<and>
             base st' tm ''a10'' = base st tm ''a10'' + ac) \<and>
          (CUT10 < ts \<longrightarrow>
             base st' tm ''k10'' = base st tm ''k10'' \<and>
             base st' tm ''d10'' = base st tm ''d10'' \<and>
             base st' tm ''a10'' = base st tm ''a10'') \<and>
          (\<forall>f. f \<notin> {''k10'', ''d10'', ''a10'', ''k15'', ''d15'', ''a15''} \<longrightarrow>
             base st' tm f = base st tm f)))
   \<and>
   (etype kill5 = Some ''CHAMPION_KILL'' \<and> timestamp kill5 = Some 300000 \<and>
    team_from_pid (killerId kill5) (get_participant_team_map m) = Some 100 \<and>
    team_from_pid (victimId kill5) (get_participant_team_map m) = Some 200 \<and>
    (assistingParticipantIds kill5 = None \<or> assistingParticipantIds kill5 = Some []) \<and>
    concat (map events (frames tlj)) = [kill5] \<longrightarrow>
      (let r = compute_features match_id m tlj
       in map_of r ''diff_k15'' = Some (CInt 1) \<and>
          map_of r ''diff_d15'' = Some (CInt (- 1)) \<and>
          map_of r ''diff_a15'' = Some (CInt 0) \<and>
          map_of r ''first_blood'' = Some (CInt 1) \<and>
          map_of r ''diff_k10'' = Some (CInt 1) \<and>
          map_of r ''diff_d10'' = Some (CInt (- 1)) \<and>
          map_of r ''diff_a10'' = Some (CInt 0)))"
proof -
  have general: "let st' = process_event p2t ev st;
           kc = credit (team_from_pid (killerId ev) p2t) tm;
           dc = credit (team_from_pid (victimId ev) p2t) tm;
           ac = assist_credit p2t ev tm
       in base st' tm ''k15'' = base st tm ''k15'' + kc \<and>
          base st' tm ''d15'' = base st tm ''d15'' + dc \<and>
          base st' tm ''a15'' = base st tm ''a15'' + ac \<and>
          (ts \<le> CUT10 \<longrightarrow>
             base st' tm ''k10'' = base st tm ''k10'' + kc \<and>
             base st' tm ''d10'' = base st tm ''d10'' + dc \<and>
             base st' tm ''a10'' = base st tm ''a10'' + ac) \<and>
          (CUT10 < ts \<longrightarrow>
             base st' tm ''k10'' = base st tm ''k10'' \<and>
             base st' tm ''d10'' = base st tm ''d10'' \<and>
             base st' tm ''a10'' = base st tm ''a10'') \<and>
          (\<forall>f. f \<notin> {''k10'', ''d10'', ''a10'', ''k15'', ''d15'', ''a15''} \<longrightarrow>
             base st' tm f = base st tm f)"
    if h: "etype ev = Some ''CHAMPION_KILL'' \<and> timestamp ev = Some ts \<and> ts \<le> CUT15 \<and>
      in_teams (Some tm)"
  proof -
    from h have pe: "process_event p2t ev st = champion_kill p2t ts ev st"
      by (simp add: process_champion_kill)
    from h have t: "in_teams (Some tm)" by simp
    have late: "\<not> ts \<le> CUT10" if "CUT10 < ts" using that by simp
    show ?thesis
      unfolding Let_def pe
      by (intro conjI impI allI champion_kill_15 [OF t] champion_kill_early [OF t]
            champion_kill_late [OF late] champion_kill_rest)
  qed
  have example: "let r = compute_features match_id m tlj
       in map_of r ''diff_k15'' = Some (CInt 1) \<and>
          map_of r ''diff_d15'' = Some (CInt (- 1)) \<and>
          map_of r ''diff_a15'' = Some (CInt 0) \<and>
          map_of r ''first_blood'' = Some (CInt 1) \<and>
          map_of r ''diff_k10'' = Some (CInt 1) \<and>
          map_of r ''diff_d10'' = Some (CInt (- 1)) \<and>
          map_of r ''diff_a10'' = Some (CInt 0)"
    if h: "etype kill5 = Some ''CHAMPION_KILL'' \<and> timestamp kill5 = Some 300000 \<and>
      team_from_pid (killerId kill5) (get_participant_team_map m) = Some 100 \<and>
      team_from_pid (victimId kill5) (get_participant_team_map m) = Some 200 \<and>
      (assistingParticipantIds kill5 = None \<or> assistingParticipantIds kill5 = Some []) \<and>
      concat (map events (frames tlj)) = [kill5]"
  proof -
    from h have e: "etype kill5 = Some ''CHAMPION_KILL''" "timestamp kill5 = Some 300000"
      and k: "team_from_pid (killerId kill5) (get_participant_team_map m) = Some 100"
      and v: "team_from_pid (victimId kill5) (get_participant_team_map m) = Some 200"
      and a: "assistingParticipantIds kill5 = None \<or> assistingParticipantIds kill5 = Some []"
      and only: "concat (map events (frames tlj)) = [kill5]"
      by simp_all
    show ?thesis
      unfolding Let_def
      by (intro conjI kill_at_5_example [OF e k v a only])
  qed
  show ?thesis
  proof (rule conjI; rule impI)
    assume "etype ev = Some ''CHAMPION_KILL'' \<and> timestamp ev = Some ts \<and> ts \<le> CUT15 \<and>
      in_teams (Some tm)"
    then show "let st' = process_event p2t ev st;
           kc = credit (team_from_pid (killerId ev) p2t) tm;
           dc = credit (team_from_pid (victimId ev) p2t) tm;
           ac = assist_credit p2t ev tm
       in base st' tm ''k15'' = base st tm ''k15'' + kc \<and>
          base st' tm ''d15'' = base st tm ''d15'' + dc \<and>
          base st' tm ''a15'' = base st tm ''a15'' + ac \<and>
          (ts \<le> CUT10 \<longrightarrow>
             base st' tm ''k10'' = base st tm ''k10'' + kc \<and>
             base st' tm ''d10'' = base st tm ''d10'' + dc \<and>
             base st' tm ''a10'' = base st tm ''a10'' + ac) \<and>
          (CUT10 < ts \<longrightarrow>
             base st' tm ''k10'' = base st tm ''k10'' \<and>
             base st' tm ''d10'' = base st tm ''d10'' \<and>
             base st' tm ''a10'' = base st tm ''a10'') \<and>
          (\<forall>f. f \<notin> {''k10'', ''d10'', ''a10'', ''k15'', ''d15'', ''a15''} \<longrightarrow>
             base st' tm f = base st tm f)"
      by (rule general)
  next
    assume "etype kill5 = Some ''CHAMPION_KILL'' \<and> timestamp kill5 = Some 300000 \<and>
      team_from_pid (killerId kill5) (get_participant_team_map m) = Some 100 \<and>
      team_from_pid (victimId kill5) (get_participant_team_map m) = Some 200 \<and>
      (assistingParticipantIds kill5 = None \<or> assistingParticipantIds kill5 = Some []) \<and>
      concat (map events (frames tlj)) = [kill5]"
    then show "let r = compute_features match_id m tlj
       in map_of r ''diff_k15'' = Some (CInt 1) \<and>
          map_of r ''diff_d15'' = Some (CInt (- 1)) \<and>
          map_of r ''diff_a15'' = Some (CInt 0) \<and>
          map_of r ''first_blood'' = Some (CInt 1) \<and>
          map_of r ''diff_k10'' = Some (CInt 1) \<and>
          map_of r ''diff_d10'' = Some (CInt (- 1)) \<and>
          map_of r ''diff_a10'' = Some (CInt 0)"
      by (rule example)
  qed
qed

theorem champion_kill_horizons_witness:
  "base (process_event (get_participant_team_map ex_match)
      (ex_event ''CHAMPION_KILL'' 720000) init_state) 100 ''k15'' = 1 \<and>
   base (process_event (get_participant_team_map ex_match)
      (ex_event ''CHAMPION_KILL'' 720000) init_state) 100 ''k10'' = 0 \<and>
   map_of (compute_features ''EUW1_1'' ex_match
      (ex_timeline [ex_event ''CHAMPION_KILL'' 300000])) ''diff_k15'' = Some (CInt 1) \<and>
   map_of (compute_features ''EUW1_1'' ex_match
      (ex_timeline [ex_event ''CHAMPION_KILL'' 300000])) ''diff_k10'' = Some (CInt 1)"
proof -
  let ?p = "get_participant_team_map ex_match"
  have a: "etype (ex_event ''CHAMPION_KILL'' ts) = Some ''CHAMPION_KILL''"
     "timestamp (ex_event ''CHAMPION_KILL'' ts) = Some ts"
     "team_from_pid (killerId (ex_event ''CHAMPION_KILL'' ts)) ?p = Some 100"
     "team_from_pid (victimId (ex_event ''CHAMPION_KILL'' ts)) ?p = Some 200"
     "assistingParticipantIds (ex_event ''CHAMPION_KILL'' ts) = None" for ts
    by (simp_all add: ex_event_def team_from_pid_def ex_pid2team)
  have b: "(720000 :: int) \<le> CUT15" "CUT10 < (720000 :: int)" "in_teams (Some 100)"
    by (simp_all add: CUT15_def CUT10_def in_teams_def)
  have c: "concat (map events (frames (ex_timeline [e]))) = [e]" for e
    by (simp add: ex_timeline_def)
  have z: "base init_state tm f = 0" for tm f
    by (simp add: init_state_def zero_counts_def)
  from champion_kill_horizons [where ev = "ex_event ''CHAMPION_KILL'' 720000"
      and ts = 720000 and tm = 100 and ?p2t = ?p and st = init_state
      and ?kill5.0 = "ex_event ''CHAMPION_KILL'' 300000" and m = ex_match
      and tlj = "ex_timeline [ex_event ''CHAMPION_KILL'' 300000]" and match_id = "''EUW1_1''"]
  show ?thesis
    using a b c z by (simp add: Let_def credit_def)
qed

subsection \<open>Events past the 15-minute cutoff\<close>

lemma process_event_late:
  "late ev \<Longrightarrow> process_event p2t ev st = st"
  by (simp add: late_def process_event_def split: option.splits)

lemma ward_event_late:
  "late ev \<Longrightarrow> ward_event p2t ev c = c"
  by (simp add: late_def ward_event_def split: option.splits)

lemma scan_events_drop_late:
  "scan_events p2t (filter (\<lambda>ev. \<not> late ev) evs) st = scan_events p2t evs st"
  by (induction evs arbitrary: st) (simp_all add: process_event_late)

lemma ward_events_drop_late:
  "ward_events p2t (filter (\<lambda>ev. \<not> late ev) evs) c = ward_events p2t evs c"
  by (induction evs arbitrary: c) (simp_all add: ward_event_late)

lemma scan_frames_drop_late:
  "scan_frames p2t (frames (drop_late tlj)) st = scan_frames p2t (frames tlj) st"
proof -
  have "scan_frames p2t (map (\<lambda>fr. fr\<lparr>events := filter (\<lambda>ev. \<not> late ev) (events fr)\<rparr>) frs) st
          = scan_frames p2t frs st" for frs
    by (induction frs arbitrary: st) (simp_all add: scan_events_drop_late)
  then show ?thesis by (simp add: drop_late_def)
qed

lemma ward_frames_drop_late:
  "ward_frames p2t (frames (drop_late tlj)) c = ward_frames p2t (frames tlj) c"
proof -
  have "ward_frames p2t (map (\<lambda>fr. fr\<lparr>events := filter (\<lambda>ev. \<not> late ev) (events fr)\<rparr>) frs) c
          = ward_frames p2t frs c" for frs
    by (induction frs arbitrary: c) (simp_all add: ward_events_drop_late)
  then show ?thesis by (simp add: drop_late_def)
qed

text \<open>
  Claim C2.  An event whose timestamp exceeds 15 minutes (\<open>CUT15\<close>, 900000 ms) leaves
  the whole state of the objective aggregator (every counter of both teams, and the
  markers) and every counter of the ward counter as they were; and a timeline from which
  all such events are removed gives the same output row in both operations.
\<close>

theorem late_events_change_nothing:
  "(timestamp ev = Some ts \<and> ts > CUT15 \<longrightarrow>
      process_event p2t ev st = st \<and> ward_event p2t ev c = c) \<and>
   compute_features match_id m (drop_late tlj) = compute_features match_id m tlj \<and>
   count_wards (frames (drop_late tlj)) p2t = count_wards (frames tlj) p2t"
proof (intro conjI impI)
  assume h: "timestamp ev = Some ts \<and> ts > CUT15"
  then have l: "late ev" by (simp add: late_def)
  show "process_event p2t ev st = st" by (rule process_event_late [OF l])
  show "ward_event p2t ev c = c" by (rule ward_event_late [OF l])
next
  show "compute_features match_id m (drop_late tlj) = compute_features match_id m tlj"
    by (simp add: compute_features_def scan_frames_drop_late)
  show "count_wards (frames (drop_late tlj)) p2t = count_wards (frames tlj) p2t"
    by (simp add: count_wards_def ward_frames_drop_late)
qed

theorem late_events_change_nothing_witness:
  "process_event (get_participant_team_map ex_match) (ex_event ''CHAMPION_KILL'' 900001) init_state
     = init_state \<and>
   ward_event (get_participant_team_map ex_match) (ex_event ''WARD_PLACED'' 900001) zero_counts
     = zero_counts \<and>
   frames (drop_late (ex_timeline [ex_event ''CHAMPION_KILL'' 300000,
       ex_event ''CHAMPION_KILL'' 900001])) = frames (ex_timeline [ex_event ''CHAMPION_KILL'' 300000]) \<and>
   compute_features ''EUW1_1'' ex_match
     (ex_timeline [ex_event ''CHAMPION_KILL'' 300000, ex_event ''CHAMPION_KILL'' 900001])
     = compute_features ''EUW1_1'' ex_match (ex_timeline [ex_event ''CHAMPION_KILL'' 300000])"
proof -
  have a: "timestamp (ex_event ty 900001) = Some 900001 \<and> 900001 > CUT15" for ty
    by (simp add: ex_event_def CUT15_def)
  have d: "drop_late (ex_timeline [ex_event ''CHAMPION_KILL'' 300000,
       ex_event ''CHAMPION_KILL'' 900001]) = ex_timeline [ex_event ''CHAMPION_KILL'' 300000]"
    by (simp add: drop_late_def ex_timeline_def late_def ex_event_def CUT15_def)
  from late_events_change_nothing [where ev = "ex_event ''CHAMPION_KILL'' 900001"
      and ts = 900001 and ?p2t = "get_participant_team_map ex_match" and st = init_state
      and c = zero_counts and match_id = "''EUW1_1''" and m = ex_match
      and tlj = "ex_timeline [ex_event ''CHAMPION_KILL'' 300000, ex_event ''CHAMPION_KILL'' 900001]"]
    late_events_change_nothing [where ev = "ex_event ''WARD_PLACED'' 900001"
      and ts = 900001 and ?p2t = "get_participant_team_map ex_match" and c = zero_counts]
  show ?thesis using a d by simp
qed

subsection \<open>First-occurrence markers\<close>

lemma latch_keep: "in_teams (Some cur) \<Longrightarrow> latch cur t = cur"
  by (auto simp: latch_def in_teams_def split: option.splits)

lemma latch_range: "cur \<in> {0, 100, 200} \<Longrightarrow> latch cur t \<in> {0, 100, 200}"
  by (auto simp: latch_def in_teams_def split: option.splits)

lemma process_event_markers:
  "first_blood_team (process_event p2t ev st) =
     first_blood_team st \<or>
   first_blood_team (process_event p2t ev st) =
     latch (first_blood_team st) (team_from_pid (killerId ev) p2t)"
  "first_drake_team (process_event p2t ev st) = first_drake_team st \<or>
   first_drake_team (process_event p2t ev st) =
     latch (first_drake_team st) (killer_team_fallback (team_from_pid (killerId ev) p2t) ev)"
  "first_tower_team (process_event p2t ev st) = first_tower_team st \<or>
   first_tower_team (process_event p2t ev st) =
     latch (first_tower_team st) (killer_team_fallback (team_from_pid (killerId ev) p2t) ev)"
  "first_herald_team (process_event p2t ev st) = first_herald_team st \<or>
   first_herald_team (process_event p2t ev st) =
     latch (first_herald_team st) (killer_team_fallback (team_from_pid (killerId ev) p2t) ev)"
  by (simp_all add: process_event_def champion_kill_def turret_plate_def building_kill_def
        elite_monster_kill_def Let_def split: option.splits)

lemma process_event_keeps:
  "in_teams (Some (first_blood_team st)) \<Longrightarrow>
     first_blood_team (process_event p2t ev st) = first_blood_team st"
  "in_teams (Some (first_drake_team st)) \<Longrightarrow>
     first_drake_team (process_event p2t ev st) = first_drake_team st"
  "in_teams (Some (first_tower_team st)) \<Longrightarrow>
     first_tower_team (process_event p2t ev st) = first_tower_team st"
  "in_teams (Some (first_herald_team st)) \<Longrightarrow>
     first_herald_team (process_event p2t ev st) = first_herald_team st"
  using process_event_markers [of p2t ev st] by (auto simp: latch_keep)

lemma process_event_range:
  "first_blood_team st \<in> {0, 100, 200} \<Longrightarrow>
     first_blood_team (process_event p2t ev st) \<in> {0, 100, 200}"
  "first_drake_team st \<in> {0, 100, 200} \<Longrightarrow>
     first_drake_team (process_event p2t ev st) \<in> {0, 100, 200}"
  "first_tower_team st \<in> {0, 100, 200} \<Longrightarrow>
     first_tower_team (process_event p2t ev st) \<in> {0, 100, 200}"
  "first_herald_team st \<in> {0, 100, 200} \<Longrightarrow>
     first_herald_team (process_event p2t ev st) \<in> {0, 100, 200}"
  using process_event_markers [of p2t ev st] latch_range by metis+

lemma scan_events_keeps:
  "in_teams (Some (first_blood_team st)) \<Longrightarrow>
     first_blood_team (scan_events p2t evs st) = first_blood_team st"
  "in_teams (Some (first_drake_team st)) \<Longrightarrow>
     first_drake_team (scan_events p2t evs st) = first_drake_team st"
  "in_teams (Some (first_tower_team st)) \<Longrightarrow>
     first_tower_team (scan_events p2t evs st) = first_tower_team st"
  "in_teams (Some (first_herald_team st)) \<Longrightarrow>
     first_herald_team (scan_events p2t evs st) = first_herald_team st"
  by (induction evs arbitrary: st) (simp_all add: process_event_keeps)

lemma scan_events_range:
  "first_blood_team st \<in> {0, 100, 200} \<Longrightarrow>
     first_blood_team (scan_events p2t evs st) \<in> {0, 100, 200}"
  "first_drake_team st \<in> {0, 100, 200} \<Longrightarrow>
     first_drake_team (scan_events p2t evs st) \<in> {0, 100, 200}"
  "first_tower_team st \<in> {0, 100, 200} \<Longrightarrow>
     first_tower_team (scan_events p2t evs st) \<in> {0, 100, 200}"
  "first_herald_team st \<in> {0, 100, 200} \<Longrightarrow>
     first_herald_team (scan_events p2t evs st) \<in> {0, 100, 200}"
  by (induction evs arbitrary: st) (simp_all only: scan_events.simps process_event_range)

lemma scan_frames_keeps:
  "in_teams (Some (first_blood_team st)) \<Longrightarrow>
     first_blood_team (scan_frames p2t frs st) = first_blood_team st"
  "in_teams (Some (first_drake_team st)) \<Longrightarrow>
     first_drake_team (scan_frames p2t frs st) = first_drake_team st"
  "in_teams (Some (first_tower_team st)) \<Longrightarrow>
     first_tower_team (scan_frames p2t frs st) = first_tower_team st"
  "in_teams (Some (first_herald_team st)) \<Longrightarrow>
     first_herald_team (scan_frames p2t frs st) = first_herald_team st"
  by (simp_all add: scan_frames_concat scan_events_keeps)

lemma final_markers_range:
  "first_blood_team (scan_frames p2t frs init_state) \<in> {0, 100, 200}"
  "first_drake_team (scan_frames p2t frs init_state) \<in> {0, 100, 200}"
  "first_tower_team (scan_frames p2t frs init_state) \<in> {0, 100, 200}"
  "first_herald_team (scan_frames p2t frs init_state) \<in> {0, 100, 200}"
  unfolding scan_frames_concat
  by (rule scan_events_range, simp add: init_state_def)+

lemma first_enc_ternary:
  "t \<in> {0, 100, 200} \<Longrightarrow>
     first_enc t = (if t = 0 then 0 else if t = 100 then 1 else - 1)"
  by (auto simp: first_enc_def)

text \<open>
  Claim C3.  Each of the four first-occurrence markers, once it holds team 100 or 200,
  is kept by every later event and by the scan of any further frames.  At the end of the
  scan of \<^verbatim>\<open>compute_features\<close> each marker is 0, 100 or 200, and the row carries
  0 for a marker that is still 0 (never latched), 1 for team 100 and -1 for team 200.
\<close>

theorem first_markers_write_once:
  "(in_teams (Some (first_blood_team st)) \<longrightarrow>
      first_blood_team (process_event p2t ev st) = first_blood_team st \<and>
      first_blood_team (scan_frames p2t frs st) = first_blood_team st) \<and>
   (in_teams (Some (first_drake_team st)) \<longrightarrow>
      first_drake_team (process_event p2t ev st) = first_drake_team st \<and>
      first_drake_team (scan_frames p2t frs st) = first_drake_team st) \<and>
   (in_teams (Some (first_tower_team st)) \<longrightarrow>
      first_tower_team (process_event p2t ev st) = first_tower_team st \<and>
      first_tower_team (scan_frames p2t frs st) = first_tower_team st) \<and>
   (in_teams (Some (first_herald_team st)) \<longrightarrow>
      first_herald_team (process_event p2t ev st) = first_herald_team st \<and>
      first_herald_team (scan_frames p2t frs st) = first_herald_team st) \<and>
   (let fin = scan_frames (get_participant_team_map m) (frames tlj) init_state;
        r = compute_features match_id m tlj;
        ternary = (\<lambda>t. if t = 0 then 0 else if t = 100 then 1 else - 1)
    in first_blood_team fin \<in> {0, 100, 200} \<and>
       first_drake_team fin \<in> {0, 100, 200} \<and>
       first_tower_team fin \<in> {0, 100, 200} \<and>
       first_herald_team fin \<in> {0, 100, 200} \<and>
       map_of r ''first_blood'' = Some (CInt (ternary (first_blood_team fin))) \<and>
       map_of r ''first_drake'' = Some (CInt (ternary (first_drake_team fin))) \<and>
       map_of r ''first_tower'' = Some (CInt (ternary (first_tower_team fin))) \<and>
       map_of r ''first_herald'' = Some (CInt (ternary (first_herald_team fin))))"
proof -
  let ?fin = "scan_frames (get_participant_team_map m) (frames tlj) init_state"
  have enc:
    "map_of (compute_features match_id m tlj) ''first_blood'' =
       Some (CInt (first_enc (first_blood_team ?fin)))"
    "map_of (compute_features match_id m tlj) ''first_drake'' =
       Some (CInt (first_enc (first_drake_team ?fin)))"
    "map_of (compute_features match_id m tlj) ''first_tower'' =
       Some (CInt (first_enc (first_tower_team ?fin)))"
    "map_of (compute_features match_id m tlj) ''first_herald'' =
       Some (CInt (first_enc (first_herald_team ?fin)))"
    by (simp_all add: compute_features_def features_row_def)
  show ?thesis
    unfolding Let_def enc
    by (intro conjI impI process_event_keeps scan_frames_keeps final_markers_range
          arg_cong [where f = Some] arg_cong [where f = CInt]
          first_enc_ternary [OF final_markers_range(1)]
          first_enc_ternary [OF final_markers_range(2)]
          first_enc_ternary [OF final_markers_range(3)]
          first_enc_ternary [OF final_markers_range(4)])
qed

theorem first_markers_write_once_witness:
  "first_drake_team (process_event (get_participant_team_map ex_match) (ex_dragon 400000 200)
      init_state) = 200 \<and>
   first_drake_team (process_event (get_participant_team_map ex_match) (ex_dragon 700000 100)
      (process_event (get_participant_team_map ex_match) (ex_dragon 400000 200) init_state)) = 200 \<and>
   map_of (compute_features ''EUW1_1'' ex_match
      (ex_timeline [ex_dragon 400000 200, ex_dragon 700000 100])) ''first_drake''
     = Some (CInt (- 1)) \<and>
   map_of (compute_features ''EUW1_1'' ex_match
      (ex_timeline [ex_dragon 400000 200, ex_dragon 700000 100])) ''first_blood''
     = Some (CInt 0)"
proof -
  let ?p = "get_participant_team_map ex_match"
  let ?s1 = "process_event ?p (ex_dragon 400000 200) init_state"
  have p0: "?p 0 = None"
    by (simp add: get_participant_team_map_def ex_match_def ex_participants_def)
  have s1: "first_drake_team ?s1 = 200"
    by (simp add: process_event_def ex_dragon_def CUT15_def elite_monster_kill_def Let_def
          killer_team_fallback_def team_from_pid_def p0 in_teams_def latch_def init_state_def)
  have t: "in_teams (Some (first_drake_team ?s1))"
    by (simp add: s1 in_teams_def)
  have fin: "scan_frames ?p (frames (ex_timeline [ex_dragon 400000 200, ex_dragon 700000 100]))
      init_state = process_event ?p (ex_dragon 700000 100) ?s1"
    by (simp add: ex_timeline_def)
  have fb: "first_blood_team (process_event ?p (ex_dragon 700000 100) ?s1) = 0"
    by (simp add: process_event_def ex_dragon_def CUT15_def elite_monster_kill_def Let_def
          init_state_def)
  from first_markers_write_once [where st = ?s1 and ?p2t = ?p and ev = "ex_dragon 700000 100"
      and m = ex_match and match_id = "''EUW1_1''"
      and tlj = "ex_timeline [ex_dragon 400000 200, ex_dragon 700000 100]"]
  show ?thesis
    using t s1 by (simp add: Let_def fin fb)
qed

subsection \<open>Turret plates\<close>

lemma process_turret_plate:
  "etype ev = Some ''TURRET_PLATE_DESTROYED'' \<Longrightarrow> timestamp ev = Some ts \<Longrightarrow> ts \<le> CUT15 \<Longrightarrow>
     process_event p2t ev st = turret_plate p2t ts ev st"
  by (simp add: process_event_def)

lemma plate_past_cutoff:
  assumes "etype ev = Some ''TURRET_PLATE_DESTROYED''" and "timestamp ev = Some ts"
    and "CUT14 < ts"
  shows "process_event p2t ev st = st"
  using assms by (simp add: process_event_def turret_plate_def)

lemma plate_in_time:
  assumes "etype ev = Some ''TURRET_PLATE_DESTROYED''" and "timestamp ev = Some ts"
    and "ts \<le> CUT14" and "in_teams (Some tm)"
  shows "base (process_event p2t ev st) tm f =
           base st tm f +
             (if f = ''plates14'' then credit (team_from_pid (killerId ev) p2t) tm else 0)"
proof -
  from assms(3) have "ts \<le> CUT15" by (simp add: CUT14_def CUT15_def)
  then show ?thesis
    using assms
    by (simp add: process_turret_plate turret_plate_def update_counts_credit)
qed

lemma process_event_plates14:
  assumes tm: "in_teams (Some tm)"
  shows "base (process_event p2t ev st) tm ''plates14'' =
           base st tm ''plates14'' + (if plate_counted p2t tm ev then 1 else 0)"
proof (cases "timestamp ev")
  case None
  then show ?thesis by (simp add: process_event_def plate_counted_def)
next
  case (Some ts)
  show ?thesis
  proof (cases "ts > CUT15")
    case True
    then have "\<not> ts \<le> CUT14" by (simp add: CUT14_def CUT15_def)
    with Some True show ?thesis by (simp add: process_event_def plate_counted_def)
  next
    case le15: False
    consider (kill) "etype ev = Some ''CHAMPION_KILL''"
      | (plate) "etype ev = Some ''TURRET_PLATE_DESTROYED''"
      | (building) "etype ev = Some ''BUILDING_KILL''"
      | (monster) "etype ev = Some ''ELITE_MONSTER_KILL''"
      | (other) "etype ev \<noteq> Some ''CHAMPION_KILL''" "etype ev \<noteq> Some ''TURRET_PLATE_DESTROYED''"
          "etype ev \<noteq> Some ''BUILDING_KILL''" "etype ev \<noteq> Some ''ELITE_MONSTER_KILL''"
      by blast
    then show ?thesis
    proof cases
      case kill
      with Some le15 have "process_event p2t ev st = champion_kill p2t ts ev st"
        by (simp add: process_event_def)
      moreover have "base (champion_kill p2t ts ev st) tm ''plates14'' = base st tm ''plates14''"
        by (rule champion_kill_rest) simp
      moreover from kill have "\<not> plate_counted p2t tm ev" by (simp add: plate_counted_def)
      ultimately show ?thesis by simp
    next
      case plate
      show ?thesis
      proof (cases "ts \<le> CUT14")
        case True
        from plate_in_time [OF plate Some True tm, of p2t st "''plates14''"]
        show ?thesis
          using plate Some True by (simp add: plate_counted_def credit_def)
      next
        case False
        then have "CUT14 < ts" by simp
        from plate_past_cutoff [OF plate Some this, of p2t st]
        show ?thesis
          using Some False by (simp add: plate_counted_def)
      qed
    next
      case building
      then have "\<not> plate_counted p2t tm ev" by (simp add: plate_counted_def)
      moreover from building Some le15 have "process_event p2t ev st = building_kill p2t ev st"
        by (simp add: process_event_def)
      moreover have "base (building_kill p2t ev st) tm ''plates14'' = base st tm ''plates14''"
        by (simp add: building_kill_def Let_def update_counts_other)
      ultimately show ?thesis by simp
    next
      case monster
      then have "\<not> plate_counted p2t tm ev" by (simp add: plate_counted_def)
      moreover from monster Some le15 have "process_event p2t ev st = elite_monster_kill p2t ev st"
        by (simp add: process_event_def)
      moreover have "base (elite_monster_kill p2t ev st) tm ''plates14'' = base st tm ''plates14''"
        by (simp add: elite_monster_kill_def Let_def update_counts_other)
      ultimately show ?thesis by simp
    next
      case other
      then have "\<not> plate_counted p2t tm ev" by (simp add: plate_counted_def)
      moreover from other Some le15 have "process_event p2t ev st = st"
        by (simp add: process_event_def)
      ultimately show ?thesis by simp
    qed
  qed
qed

lemma scan_events_plates14:
  "in_teams (Some tm) \<Longrightarrow>
     base (scan_events p2t evs st) tm ''plates14'' =
       base st tm ''plates14'' + int (length (filter (plate_counted p2t tm) evs))"
  by (induction evs arbitrary: st) (simp_all add: process_event_plates14)

lemma diff_plates14_count:
  "map_of (compute_features match_id m tlj) ''diff_plates14'' =
     Some (CInt (plates_of (get_participant_team_map m) 100 tlj -
                 plates_of (get_participant_team_map m) 200 tlj))"
proof -
  have t: "in_teams (Some 100)" "in_teams (Some 200)" by (simp_all add: in_teams_def)
  have z: "base init_state tm f = 0" for tm f
    by (simp add: init_state_def zero_counts_def)
  show ?thesis
    by (simp add: compute_features_def features_row_def diff_def scan_frames_concat
          scan_events_plates14 [OF t(1)] scan_events_plates14 [OF t(2)] z plates_of_def)
qed

text \<open>
  Claim C9.  A \<^verbatim>\<open>TURRET_PLATE_DESTROYED\<close> event with timestamp at most \<open>CUT14\<close>
  (840000 ms) adds one plate to the destroyer's team (when that team resolves to 100 or
  200); with a later timestamp it changes nothing.  Over a whole timeline the row's
  \<open>diff_plates14\<close> is the number of plate events at or before 14 minutes whose destroyer
  is on team 100, minus the number of those whose destroyer is on team 200.  So a timeline
  whose only event is a plate in time, destroyed by team 100, has \<open>diff_plates14 = 1\<close>
  (by team 200: -1), and one whose only event is a plate at 14:00:01 (841000 ms) has
  \<open>diff_plates14 = 0\<close>.
\<close>

theorem plate_cutoff:
  "(etype ev = Some ''TURRET_PLATE_DESTROYED'' \<and> timestamp ev = Some ts \<longrightarrow>
      (ts \<le> CUT14 \<and> in_teams (Some tm) \<longrightarrow>
         base (process_event p2t ev st) tm ''plates14'' =
           base st tm ''plates14'' + credit (team_from_pid (killerId ev) p2t) tm) \<and>
      (CUT14 < ts \<longrightarrow> process_event p2t ev st = st)) \<and>
   (etype plate = Some ''TURRET_PLATE_DESTROYED'' \<and> timestamp plate = Some 841000 \<and>
    concat (map events (frames tlj)) = [plate] \<longrightarrow>
      map_of (compute_features match_id m tlj) ''diff_plates14'' = Some (CInt 0)) \<and>
   map_of (compute_features match_id m tl_any) ''diff_plates14'' =
     Some (CInt (plates_of (get_participant_team_map m) 100 tl_any -
                 plates_of (get_participant_team_map m) 200 tl_any)) \<and>
   (etype early = Some ''TURRET_PLATE_DESTROYED'' \<and> timestamp early = Some ts_early \<and>
    ts_early \<le> CUT14 \<and> concat (map events (frames tl_early)) = [early] \<longrightarrow>
      (team_from_pid (killerId early) (get_participant_team_map m) = Some 100 \<longrightarrow>
         map_of (compute_features match_id m tl_early) ''diff_plates14'' = Some (CInt 1)) \<and>
      (team_from_pid (killerId early) (get_participant_team_map m) = Some 200 \<longrightarrow>
         map_of (compute_features match_id m tl_early) ''diff_plates14'' = Some (CInt (- 1))))"
proof (intro conjI impI)
  assume "etype ev = Some ''TURRET_PLATE_DESTROYED'' \<and> timestamp ev = Some ts"
    and "ts \<le> CUT14 \<and> in_teams (Some tm)"
  then show "base (process_event p2t ev st) tm ''plates14'' =
           base st tm ''plates14'' + credit (team_from_pid (killerId ev) p2t) tm"
    by (simp add: plate_in_time)
next
  assume "etype ev = Some ''TURRET_PLATE_DESTROYED'' \<and> timestamp ev = Some ts"
    and "CUT14 < ts"
  then show "process_event p2t ev st = st"
    by (simp add: plate_past_cutoff)
next
  assume h: "etype plate = Some ''TURRET_PLATE_DESTROYED'' \<and> timestamp plate = Some 841000 \<and>
    concat (map events (frames tlj)) = [plate]"
  then have only: "concat (map events (frames tlj)) = [plate]" by simp
  have "CUT14 < (841000 :: int)" by (simp add: CUT14_def)
  with h have "process_event (get_participant_team_map m) plate init_state = init_state"
    by (simp add: plate_past_cutoff)
  then show "map_of (compute_features match_id m tlj) ''diff_plates14'' = Some (CInt 0)"
    by (simp add: compute_features_single [OF only] features_row_def diff_def init_state_def
          zero_counts_def)
next
  show "map_of (compute_features match_id m tl_any) ''diff_plates14'' =
     Some (CInt (plates_of (get_participant_team_map m) 100 tl_any -
                 plates_of (get_participant_team_map m) 200 tl_any))"
    by (rule diff_plates14_count)
next
  assume h: "etype early = Some ''TURRET_PLATE_DESTROYED'' \<and> timestamp early = Some ts_early \<and>
    ts_early \<le> CUT14 \<and> concat (map events (frames tl_early)) = [early]"
    and k: "team_from_pid (killerId early) (get_participant_team_map m) = Some 100"
  from h k have "plates_of (get_participant_team_map m) 100 tl_early = 1"
    "plates_of (get_participant_team_map m) 200 tl_early = 0"
    by (simp_all add: plates_of_def plate_counted_def)
  then show "map_of (compute_features match_id m tl_early) ''diff_plates14'' = Some (CInt 1)"
    by (simp add: diff_plates14_count)
next
  assume h: "etype early = Some ''TURRET_PLATE_DESTROYED'' \<and> timestamp early = Some ts_early \<and>
    ts_early \<le> CUT14 \<and> concat (map events (frames tl_early)) = [early]"
    and k: "team_from_pid (killerId early) (get_participant_team_map m) = Some 200"
  from h k have "plates_of (get_participant_team_map m) 100 tl_early = 0"
    "plates_of (get_participant_team_map m) 200 tl_early = 1"
    by (simp_all add: plates_of_def plate_counted_def)
  then show "map_of (compute_features match_id m tl_early) ''diff_plates14'' = Some (CInt (- 1))"
    by (simp add: diff_plates14_count)
qed

theorem plate_cutoff_witness:
  "base (process_event (get_participant_team_map ex_match)
      (ex_event ''TURRET_PLATE_DESTROYED'' 840000) init_state) 100 ''plates14'' = 1 \<and>
   process_event (get_participant_team_map ex_match)
      (ex_event ''TURRET_PLATE_DESTROYED'' 841000) init_state = init_state \<and>
   map_of (compute_features ''EUW1_1'' ex_match
      (ex_timeline [ex_event ''TURRET_PLATE_DESTROYED'' 841000])) ''diff_plates14'' = Some (CInt 0) \<and>
   map_of (compute_features ''EUW1_1'' ex_match
      (ex_timeline [ex_event ''TURRET_PLATE_DESTROYED'' 840000])) ''diff_plates14'' = Some (CInt 1) \<and>
   map_of (compute_features ''EUW1_1'' ex_match
      (ex_timeline [ex_event ''TURRET_PLATE_DESTROYED'' 100000,
                    ex_event ''CHAMPION_KILL'' 200000,
                    ex_event ''TURRET_PLATE_DESTROYED'' 840000,
                    ex_event ''TURRET_PLATE_DESTROYED'' 841000])) ''diff_plates14'' = Some (CInt 2)"
proof -
  let ?p = "get_participant_team_map ex_match"
  let ?four = "ex_timeline [ex_event ''TURRET_PLATE_DESTROYED'' 100000,
                    ex_event ''CHAMPION_KILL'' 200000,
                    ex_event ''TURRET_PLATE_DESTROYED'' 840000,
                    ex_event ''TURRET_PLATE_DESTROYED'' 841000]"
  have a: "etype (ex_event ''TURRET_PLATE_DESTROYED'' ts) = Some ''TURRET_PLATE_DESTROYED''"
     "timestamp (ex_event ''TURRET_PLATE_DESTROYED'' ts) = Some ts"
     "team_from_pid (killerId (ex_event ''TURRET_PLATE_DESTROYED'' ts)) ?p = Some 100" for ts
    by (simp_all add: ex_event_def team_from_pid_def ex_pid2team)
  have b: "(840000 :: int) \<le> CUT14" "CUT14 < (841000 :: int)" "in_teams (Some 100)"
    by (simp_all add: CUT14_def in_teams_def)
  have c: "concat (map events (frames (ex_timeline [e]))) = [e]" for e
    by (simp add: ex_timeline_def)
  have z: "base init_state tm f = 0" for tm f
    by (simp add: init_state_def zero_counts_def)
  have n: "plates_of ?p 100 ?four = 2" "plates_of ?p 200 ?four = 0"
    by (simp_all add: plates_of_def plate_counted_def ex_timeline_def ex_event_def CUT14_def
          team_from_pid_def ex_pid2team)
  from plate_cutoff [where ev = "ex_event ''TURRET_PLATE_DESTROYED'' 840000" and ts = 840000
      and tm = 100 and ?p2t = ?p and st = init_state
      and plate = "ex_event ''TURRET_PLATE_DESTROYED'' 841000" and m = ex_match
      and tlj = "ex_timeline [ex_event ''TURRET_PLATE_DESTROYED'' 841000]"
      and match_id = "''EUW1_1''" and tl_any = ?four
      and early = "ex_event ''TURRET_PLATE_DESTROYED'' 840000" and ts_early = 840000
      and tl_early = "ex_timeline [ex_event ''TURRET_PLATE_DESTROYED'' 840000]"]
    plate_cutoff [where ev = "ex_event ''TURRET_PLATE_DESTROYED'' 841000" and ts = 841000
      and ?p2t = ?p and st = init_state]
  show ?thesis
    using a b c z n by (simp add: credit_def)
qed

subsection \<open>The windowed frame selector\<close>

lemma pick_loop_sorted:
  "ts_nondecreasing frs \<Longrightarrow>
   pick_loop frs cut_ms best =
     (case filter (at_or_before cut_ms) frs of [] \<Rightarrow> best | q # qs \<Rightarrow> Some (last (q # qs)))"
proof (induction frs arbitrary: best)
  case Nil
  then show ?case by simp
next
  case (Cons fr frs)
  from Cons.prems have srt: "ts_nondecreasing frs"
    by (simp add: ts_nondecreasing_def)
  show ?case
  proof (cases "frame_timestamp fr")
    case None
    then have "\<not> at_or_before cut_ms fr" by (simp add: at_or_before_def)
    then show ?thesis
      using None Cons.IH [OF srt] by simp
  next
    case (Some ts)
    show ?thesis
    proof (cases "ts \<le> cut_ms")
      case True
      with Some have "at_or_before cut_ms fr" by (simp add: at_or_before_def)
      then show ?thesis
        using Some True Cons.IH [OF srt, of "Some fr"]
        by (simp split: list.splits)
    next
      case False
      have "\<not> at_or_before cut_ms g" if "g \<in> set frs" for g
      proof (cases "frame_timestamp g")
        case None
        then show ?thesis by (simp add: at_or_before_def)
      next
        case (Some tg)
        from Cons.prems that Some \<open>frame_timestamp fr = Some ts\<close> have "ts \<le> tg"
          by (auto simp: ts_nondecreasing_def)
        with False Some show ?thesis by (simp add: at_or_before_def)
      qed
      then have "filter (at_or_before cut_ms) frs = []"
        by (simp add: filter_empty_conv)
      moreover from Some False have "\<not> at_or_before cut_ms fr"
        by (simp add: at_or_before_def)
      ultimately show ?thesis
        using Some False by simp
    qed
  qed
qed

lemma last_filter_latest:
  assumes "ts_nondecreasing frs" and "fr \<in> set frs" and "at_or_before cut_ms fr"
  shows "\<exists>ta tb. frame_timestamp fr = Some ta \<and>
           frame_timestamp (last (filter (at_or_before cut_ms) frs)) = Some tb \<and> ta \<le> tb"
proof -
  let ?R = "\<lambda>a b. case (frame_timestamp a, frame_timestamp b) of
                     (Some ta, Some tb) \<Rightarrow> ta \<le> tb | _ \<Rightarrow> True"
  let ?qs = "filter (at_or_before cut_ms) frs"
  have srt: "sorted_wrt ?R ?qs"
    using assms(1) unfolding ts_nondecreasing_def by (rule sorted_wrt_filter)
  have mem: "fr \<in> set ?qs" using assms(2,3) by simp
  from length_pos_if_in_set [OF mem] have ne: "?qs \<noteq> []"
    by (simp only: length_greater_0_conv simp_thms)
  have "last ?qs \<in> set ?qs" using ne by (rule last_in_set)
  then have lq: "at_or_before cut_ms (last ?qs)" by simp
  have step: "x = last xs \<or> ?R x (last xs)" if "sorted_wrt ?R xs" "x \<in> set xs" for x xs
    using that by (induction xs) (auto split: if_splits)
  from step [OF srt mem] assms(3) lq show ?thesis
    by (auto simp: at_or_before_def split: option.splits)
qed

text \<open>
  Claim C7.  On a non-empty frame list whose timestamps are non-decreasing,
  \<^verbatim>\<open>pick_frame\<close> returns the last frame of the list among those with a timestamp at or
  below the cutoff, and no such frame has a greater timestamp than the returned one; when
  no frame qualifies it returns the first frame of the list.
\<close>

theorem pick_frame_latest:
  "frs \<noteq> [] \<and> ts_nondecreasing frs \<longrightarrow>
     pick_frame frs cut_ms =
       (if \<exists>fr \<in> set frs. at_or_before cut_ms fr
        then Some (last (filter (at_or_before cut_ms) frs))
        else Some (hd frs)) \<and>
     (\<forall>fr \<in> set frs. at_or_before cut_ms fr \<longrightarrow>
        (\<exists>ta tb. frame_timestamp fr = Some ta \<and>
           frame_timestamp (last (filter (at_or_before cut_ms) frs)) = Some tb \<and> ta \<le> tb))"
proof
  assume h: "frs \<noteq> [] \<and> ts_nondecreasing frs"
  then obtain f0 rest where frs: "frs = f0 # rest" by (cases frs) auto
  have pick: "pick_frame frs cut_ms =
       (if \<exists>fr \<in> set frs. at_or_before cut_ms fr
        then Some (last (filter (at_or_before cut_ms) frs))
        else Some (hd frs))"
  proof (cases "filter (at_or_before cut_ms) frs")
    case Nil
    then have "\<not> (\<exists>fr \<in> set frs. at_or_before cut_ms fr)"
      by (simp add: filter_empty_conv)
    then show ?thesis
      using h Nil frs by (simp add: pick_frame_def pick_loop_sorted del: pick_loop.simps)
  next
    case (Cons q qs)
    then have "\<exists>fr \<in> set frs. at_or_before cut_ms fr"
      by (metis filter_empty_conv list.distinct(1))
    then show ?thesis
      using h Cons by (simp add: pick_frame_def pick_loop_sorted del: pick_loop.simps)
  qed
  from h have "ts_nondecreasing frs" by simp
  then have latest: "\<forall>fr \<in> set frs. at_or_before cut_ms fr \<longrightarrow>
        (\<exists>ta tb. frame_timestamp fr = Some ta \<and>
           frame_timestamp (last (filter (at_or_before cut_ms) frs)) = Some tb \<and> ta \<le> tb)"
    by (intro ballI impI last_filter_latest)
  from pick latest
  show "pick_frame frs cut_ms =
       (if \<exists>fr \<in> set frs. at_or_before cut_ms fr
        then Some (last (filter (at_or_before cut_ms) frs))
        else Some (hd frs)) \<and>
     (\<forall>fr \<in> set frs. at_or_before cut_ms fr \<longrightarrow>
        (\<exists>ta tb. frame_timestamp fr = Some ta \<and>
           frame_timestamp (last (filter (at_or_before cut_ms) frs)) = Some tb \<and> ta \<le> tb))"
    by (rule conjI)
qed

theorem pick_frame_latest_witness:
  "pick_frame [ex_frame 0, ex_frame 60000, ex_frame 120000] 60500 = Some (ex_frame 60000) \<and>
   pick_frame [ex_frame 60000, ex_frame 120000] 500 = Some (ex_frame 60000)"
proof -
  have s: "ts_nondecreasing [ex_frame 0, ex_frame 60000, ex_frame 120000]"
    "ts_nondecreasing [ex_frame 60000, ex_frame 120000]"
    by (simp_all add: ts_nondecreasing_def ex_frame_def)
  from pick_frame_latest [of "[ex_frame 0, ex_frame 60000, ex_frame 120000]" 60500]
    pick_frame_latest [of "[ex_frame 60000, ex_frame 120000]" 500]
  show ?thesis
    using s by (simp add: at_or_before_def ex_frame_def)
qed

subsection \<open>The windowed economy deltas\<close>

lemma sum_team_loop_unresolvable:
  "\<forall>entry \<in> set pf. \<not> resolvable to_int p2t entry \<Longrightarrow> sum_team_loop to_int p2t pf totals = totals"
  by (induction pf arbitrary: totals)
     (auto simp: resolvable_def in_teams_def split: option.splits)

lemma sum_team_unresolvable:
  "no_resolvable to_int p2t fr \<Longrightarrow> sum_team_from_frame to_int fr p2t = zero_counts"
  by (cases fr) (simp_all add: sum_team_from_frame_def no_resolvable_def sum_team_loop_unresolvable)

lemma map_of_dict_update_other:
  "k \<notin> fst ` set kvs \<Longrightarrow> map_of (dict_update r kvs) k = map_of r k"
  by (induction kvs arbitrary: r) (auto simp: update_conv')

lemma more_row_deltas:
  "map_of (more_row to_int match_id m tlj) ''delta_m8_gold_100_minus_200'' =
     Some (CInt (d (sum_team_from_frame to_int (pick_frame (frames tlj) CUT8) (get_pid2team m)) ''gold''))"
  "map_of (more_row to_int match_id m tlj) ''delta_m8_xp_100_minus_200'' =
     Some (CInt (d (sum_team_from_frame to_int (pick_frame (frames tlj) CUT8) (get_pid2team m)) ''xp''))"
  "map_of (more_row to_int match_id m tlj) ''delta_m8_cs_100_minus_200'' =
     Some (CInt (d (sum_team_from_frame to_int (pick_frame (frames tlj) CUT8) (get_pid2team m)) ''cs''))"
  "map_of (more_row to_int match_id m tlj) ''delta_m8_lvl_100_minus_200'' =
     Some (CInt (d (sum_team_from_frame to_int (pick_frame (frames tlj) CUT8) (get_pid2team m)) ''lvl''))"
  "map_of (more_row to_int match_id m tlj) ''delta_m12_gold_100_minus_200'' =
     Some (CInt (d (sum_team_from_frame to_int (pick_frame (frames tlj) CUT12) (get_pid2team m)) ''gold''))"
  "map_of (more_row to_int match_id m tlj) ''delta_m12_xp_100_minus_200'' =
     Some (CInt (d (sum_team_from_frame to_int (pick_frame (frames tlj) CUT12) (get_pid2team m)) ''xp''))"
  "map_of (more_row to_int match_id m tlj) ''delta_m12_cs_100_minus_200'' =
     Some (CInt (d (sum_team_from_frame to_int (pick_frame (frames tlj) CUT12) (get_pid2team m)) ''cs''))"
  "map_of (more_row to_int match_id m tlj) ''delta_m12_lvl_100_minus_200'' =
     Some (CInt (d (sum_team_from_frame to_int (pick_frame (frames tlj) CUT12) (get_pid2team m)) ''lvl''))"
proof -
  have keys: "fst ` set (count_wards frs p2t) =
      {''diff_wardsPlaced10'', ''diff_wardsKilled10'', ''diff_ctrlWardsPlaced10'',
       ''diff_wardsPlaced15'', ''diff_wardsKilled15'', ''diff_ctrlWardsPlaced15''}" for frs p2t
    by (simp add: count_wards_def Let_def)
  have other: "map_of (dict_update r (count_wards frs p2t)) (''delta_m'' @ k) = map_of r (''delta_m'' @ k)"
    for r frs p2t k
    by (rule map_of_dict_update_other) (simp add: keys)
  show "map_of (more_row to_int match_id m tlj) ''delta_m8_gold_100_minus_200'' =
     Some (CInt (d (sum_team_from_frame to_int (pick_frame (frames tlj) CUT8) (get_pid2team m)) ''gold''))"
    using other [where k = "''8_gold_100_minus_200''"] by (simp add: more_row_def Let_def)
  show "map_of (more_row to_int match_id m tlj) ''delta_m8_xp_100_minus_200'' =
     Some (CInt (d (sum_team_from_frame to_int (pick_frame (frames tlj) CUT8) (get_pid2team m)) ''xp''))"
    using other [where k = "''8_xp_100_minus_200''"] by (simp add: more_row_def Let_def)
  show "map_of (more_row to_int match_id m tlj) ''delta_m8_cs_100_minus_200'' =
     Some (CInt (d (sum_team_from_frame to_int (pick_frame (frames tlj) CUT8) (get_pid2team m)) ''cs''))"
    using other [where k = "''8_cs_100_minus_200''"] by (simp add: more_row_def Let_def)
  show "map_of (more_row to_int match_id m tlj) ''delta_m8_lvl_100_minus_200'' =
     Some (CInt (d (sum_team_from_frame to_int (pick_frame (frames tlj) CUT8) (get_pid2team m)) ''lvl''))"
    using other [where k = "''8_lvl_100_minus_200''"] by (simp add: more_row_def Let_def)
  show "map_of (more_row to_int match_id m tlj) ''delta_m12_gold_100_minus_200'' =
     Some (CInt (d (sum_team_from_frame to_int (pick_frame (frames tlj) CUT12) (get_pid2team m)) ''gold''))"
    using other [where k = "''12_gold_100_minus_200''"] by (simp add: more_row_def Let_def)
  show "map_of (more_row to_int match_id m tlj) ''delta_m12_xp_100_minus_200'' =
     Some (CInt (d (sum_team_from_frame to_int (pick_frame (frames tlj) CUT12) (get_pid2team m)) ''xp''))"
    using other [where k = "''12_xp_100_minus_200''"] by (simp add: more_row_def Let_def)
  show "map_of (more_row to_int match_id m tlj) ''delta_m12_cs_100_minus_200'' =
     Some (CInt (d (sum_team_from_frame to_int (pick_frame (frames tlj) CUT12) (get_pid2team m)) ''cs''))"
    using other [where k = "''12_cs_100_minus_200''"] by (simp add: more_row_def Let_def)
  show "map_of (more_row to_int match_id m tlj) ''delta_m12_lvl_100_minus_200'' =
     Some (CInt (d (sum_team_from_frame to_int (pick_frame (frames tlj) CUT12) (get_pid2team m)) ''lvl''))"
    using other [where k = "''12_lvl_100_minus_200''"] by (simp add: more_row_def Let_def)
qed

lemma pick_frame_empty: "pick_frame [] cut_ms = None"
  by (simp add: pick_frame_def)

text \<open>
  Claim C10.  The row of the windowed-economy stage always carries the eight delta
  columns of minutes 8 and 12 with an integer value.  When the timeline has no frames
  all eight are 0, and when the frame selected for a minute has no entry that resolves
  to team 100 or 200 the four deltas of that minute are 0.
\<close>

theorem windowed_deltas_zero_filled:
  "(let r = more_row to_int match_id m tlj;
        p2t = get_pid2team m;
        fr8 = pick_frame (frames tlj) CUT8;
        fr12 = pick_frame (frames tlj) CUT12
    in (\<forall>k \<in> set (delta_keys ''8'' @ delta_keys ''12''). \<exists>v. map_of r k = Some (CInt v)) \<and>
       (frames tlj = [] \<longrightarrow>
          (\<forall>k \<in> set (delta_keys ''8'' @ delta_keys ''12''). map_of r k = Some (CInt 0))) \<and>
       (no_resolvable to_int p2t fr8 \<longrightarrow>
          (\<forall>k \<in> set (delta_keys ''8''). map_of r k = Some (CInt 0))) \<and>
       (no_resolvable to_int p2t fr12 \<longrightarrow>
          (\<forall>k \<in> set (delta_keys ''12''). map_of r k = Some (CInt 0))))"
proof -
  have present: "\<forall>k \<in> set (delta_keys ''8'' @ delta_keys ''12'').
      \<exists>v. map_of (more_row to_int match_id m tlj) k = Some (CInt v)"
    by (simp add: delta_keys_def more_row_deltas)
  have z: "d zero_counts f = 0" for f
    by (simp add: d_def zero_counts_def)
  have none: "sum_team_from_frame to_int None p2t = zero_counts" for p2t
    by (simp add: sum_team_unresolvable no_resolvable_def)
  have empty: "\<forall>k \<in> set (delta_keys ''8'' @ delta_keys ''12'').
      map_of (more_row to_int match_id m tlj) k = Some (CInt 0)" if "frames tlj = []"
    using that by (simp add: delta_keys_def more_row_deltas pick_frame_empty none z)
  have m8: "\<forall>k \<in> set (delta_keys ''8''). map_of (more_row to_int match_id m tlj) k = Some (CInt 0)"
    if "no_resolvable to_int (get_pid2team m) (pick_frame (frames tlj) CUT8)"
    using that by (simp add: delta_keys_def more_row_deltas sum_team_unresolvable z)
  have m12: "\<forall>k \<in> set (delta_keys ''12''). map_of (more_row to_int match_id m tlj) k = Some (CInt 0)"
    if "no_resolvable to_int (get_pid2team m) (pick_frame (frames tlj) CUT12)"
    using that by (simp add: delta_keys_def more_row_deltas sum_team_unresolvable z)
  show ?thesis
    unfolding Let_def
    using present empty m8 m12 by (intro conjI impI)
qed

theorem windowed_deltas_zero_filled_witness:
  "map_of (more_row ex_to_int ''EUW1_1'' ex_match \<lparr>frames = []\<rparr>) ''delta_m8_gold_100_minus_200''
     = Some (CInt 0) \<and>
   map_of (more_row ex_to_int ''EUW1_1'' ex_match \<lparr>frames = []\<rparr>) ''delta_m12_lvl_100_minus_200''
     = Some (CInt 0) \<and>
   map_of (more_row ex_to_int ''EUW1_1'' ex_match ex_stray_timeline) ''delta_m8_cs_100_minus_200''
     = Some (CInt 0) \<and>
   map_of (more_row ex_to_int ''EUW1_1'' ex_match ex_stray_timeline) ''delta_m12_xp_100_minus_200''
     = Some (CInt 0)"
proof -
  have pk: "pick_frame (frames ex_stray_timeline) cut_ms = Some (hd (frames ex_stray_timeline))"
    for cut_ms
    by (simp add: ex_stray_timeline_def pick_frame_def split: option.splits)
  have nr: "no_resolvable ex_to_int (get_pid2team ex_match)
      (pick_frame (frames ex_stray_timeline) cut_ms)" for cut_ms
    unfolding pk
    by (simp add: no_resolvable_def ex_stray_timeline_def resolvable_def ex_to_int_def
          get_pid2team_def ex_match_def ex_participants_def in_teams_def)
  from windowed_deltas_zero_filled [where to_int = ex_to_int and match_id = "''EUW1_1''"
      and m = ex_match and tlj = "\<lparr>frames = []\<rparr>"]
    windowed_deltas_zero_filled [where to_int = ex_to_int and match_id = "''EUW1_1''"
      and m = ex_match and tlj = ex_stray_timeline]
  show ?thesis
    using nr by (simp add: Let_def delta_keys_def)
qed

subsection \<open>The team snapshot extractor\<close>

lemma team_loop_ok:
  "ok (team_loop pf ids acc) = ok acc + int (length (aggregated pf ids))"
  by (induction ids arbitrary: acc)
     (auto simp: aggregated_def Let_def split: option.splits)

lemma team_loop_cs:
  "total_cs (team_loop pf ids acc) =
     total_cs acc + sum_list (map (cs_of pf) (aggregated pf ids))"
  by (induction ids arbitrary: acc)
     (auto simp: aggregated_def cs_of_def Let_def split: option.splits)

lemma get_frame_index:
  "get_frame tlj minute =
     (if 0 \<le> minute \<and> minute < int (length (frames tlj)) then Some (frames tlj ! nat minute)
      else None)"
  by (auto simp: get_frame_def Let_def)

lemma snapshot_no_frame:
  "minute < 0 \<or> minute \<ge> int (length (frames tlj)) \<Longrightarrow> extract_team_snapshot tlj minute ids = []"
  by (auto simp: extract_team_snapshot_def get_frame_index)

lemma snapshot_none_aggregated:
  "get_frame tlj minute = Some fr \<Longrightarrow> aggregated (participantFrames fr) ids = [] \<Longrightarrow>
     extract_team_snapshot tlj minute ids = []"
  by (simp add: extract_team_snapshot_def Let_def team_loop_ok acc0_def)

lemma snapshot_some:
  assumes "get_frame tlj minute = Some fr" and "aggregated (participantFrames fr) ids \<noteq> []"
  shows "extract_team_snapshot tlj minute ids =
     (let acc = team_loop (participantFrames fr) ids acc0
      in [(''team_m'' @ str minute @ ''_totalGold'', total_gold acc),
          (''team_m'' @ str minute @ ''_xp'', total_xp acc),
          (''team_m'' @ str minute @ ''_cs'', total_cs acc),
          (''team_m'' @ str minute @ ''_levelSum'', total_lvl acc),
          (''team_m'' @ str minute @ ''_participants_ok'', ok acc)])"
  using assms by (simp add: extract_team_snapshot_def Let_def team_loop_ok acc0_def)

lemma snapshot_empty_iff:
  "extract_team_snapshot tlj minute ids = [] \<longleftrightarrow>
     (case get_frame tlj minute of None \<Rightarrow> True
      | Some fr \<Rightarrow> aggregated (participantFrames fr) ids = [])"
  by (cases "get_frame tlj minute")
     (auto simp: extract_team_snapshot_def Let_def team_loop_ok acc0_def)

lemma snapshot_ok_positive:
  assumes "extract_team_snapshot tlj minute ids \<noteq> []"
  shows "\<exists>n. map_of (extract_team_snapshot tlj minute ids)
            (''team_m'' @ str minute @ ''_participants_ok'') = Some n \<and> 1 \<le> n"
proof -
  from assms obtain fr where fr: "get_frame tlj minute = Some fr"
    and ag: "aggregated (participantFrames fr) ids \<noteq> []"
    by (auto simp: snapshot_empty_iff split: option.splits)
  from ag have "1 \<le> int (length (aggregated (participantFrames fr) ids))"
    by (cases "aggregated (participantFrames fr) ids") simp_all
  then show ?thesis
    by (simp add: snapshot_some [OF fr ag] Let_def team_loop_ok acc0_def)
qed

text \<open>
  Claim C4.  \<^verbatim>\<open>get_frame\<close> returns the frame at index \<open>minute\<close> when that index
  exists and nothing otherwise.  The team snapshot is empty when the index does not exist
  (minute negative or at least the number of frames) and when no participant of the list
  was aggregated from the frame; a snapshot that is returned counts at least one
  participant, so it is never a zero-filled row.  A request for minute 10 on a timeline
  of 8 frames gives the empty snapshot.
\<close>

theorem no_snapshot_when_missing:
  "get_frame tlj minute =
     (if 0 \<le> minute \<and> minute < int (length (frames tlj)) then Some (frames tlj ! nat minute)
      else None) \<and>
   (minute < 0 \<or> minute \<ge> int (length (frames tlj)) \<longrightarrow>
      extract_team_snapshot tlj minute ids = []) \<and>
   (get_frame tlj minute = Some fr \<and> aggregated (participantFrames fr) ids = [] \<longrightarrow>
      extract_team_snapshot tlj minute ids = []) \<and>
   (extract_team_snapshot tlj minute ids \<noteq> [] \<longrightarrow>
      (\<exists>n. map_of (extract_team_snapshot tlj minute ids)
              (''team_m'' @ str minute @ ''_participants_ok'') = Some n \<and> 1 \<le> n)) \<and>
   (length (frames tl8) = 8 \<longrightarrow> extract_team_snapshot tl8 10 ids = [])"
proof (intro conjI impI)
  show "get_frame tlj minute =
     (if 0 \<le> minute \<and> minute < int (length (frames tlj)) then Some (frames tlj ! nat minute)
      else None)"
    by (rule get_frame_index)
  show "extract_team_snapshot tlj minute ids = []"
    if "minute < 0 \<or> minute \<ge> int (length (frames tlj))"
    using that by (rule snapshot_no_frame)
  show "extract_team_snapshot tlj minute ids = []"
    if "get_frame tlj minute = Some fr \<and> aggregated (participantFrames fr) ids = []"
    using that by (simp add: snapshot_none_aggregated)
  show "\<exists>n. map_of (extract_team_snapshot tlj minute ids)
              (''team_m'' @ str minute @ ''_participants_ok'') = Some n \<and> 1 \<le> n"
    if "extract_team_snapshot tlj minute ids \<noteq> []"
    using that by (rule snapshot_ok_positive)
  show "extract_team_snapshot tl8 10 ids = []" if "length (frames tl8) = 8"
    using that by (simp add: snapshot_no_frame)
qed

lemma str_values:
  "str 1 = ''1''" "str 2 = ''2''" "str 3 = ''3''" "str 4 = ''4''" "str 5 = ''5''"
  "str 6 = ''6''" "str 7 = ''7''" "str 8 = ''8''" "str 9 = ''9''" "str 10 = ''10''"
  "str 15 = ''15''"
  by (simp_all add: str_def digits10.simps)

lemma ex_team_ids:
  "team_ids ex_participants 100 = [Some 1, Some 2, Some 3, Some 4, Some 5]"
  "team_ids ex_participants 200 = [Some 6, Some 7, Some 8, Some 9, Some 10]"
  by (simp_all add: team_ids_def ex_participants_def)

lemma cx_get_frame: "get_frame cx_timeline 10 = Some cx_frame"
  by (simp add: get_frame_def cx_timeline_def nth_append)

lemma cx_aggregated:
  "aggregated (participantFrames cx_frame) [Some 1, Some 2, Some 3, Some 4, Some 5] = [Some 1]"
  "aggregated (participantFrames cx_frame) [Some 6, Some 7, Some 8, Some 9, Some 10] = [Some 6]"
  by (simp_all add: aggregated_def cx_frame_def str_pid_def str_values ex_pframe_def)

lemma cx_present:
  "present (participantFrames cx_frame) [Some 1, Some 2, Some 3, Some 4, Some 5] = [Some 1, Some 2]"
  by (simp add: present_def cx_frame_def str_pid_def str_values)

lemma cx_cs_of:
  "cs_of (participantFrames cx_frame) (Some 1) = 30"
  "cs_of (participantFrames cx_frame) (Some 2) = 15"
  "cs_of (participantFrames cx_frame) (Some 6) = 20"
  by (simp_all add: cs_of_def cx_frame_def str_pid_def str_values ex_pframe_def or0_def)

theorem no_snapshot_when_missing_witness:
  "get_frame cx_timeline 10 = Some cx_frame \<and>
   extract_team_snapshot cx_timeline 15 [Some 1, Some 2] = [] \<and>
   extract_team_snapshot cx_timeline (- 1) [Some 1, Some 2] = [] \<and>
   extract_team_snapshot cx_timeline 10 [Some 3, Some 4] = [] \<and>
   map_of (extract_team_snapshot cx_timeline 10 [Some 1, Some 2, Some 3, Some 4, Some 5])
     ''team_m10_participants_ok'' = Some 1 \<and>
   extract_team_snapshot \<lparr>frames = replicate 8 (ex_frame 0)\<rparr> 10 [Some 1, Some 2] = []"
proof -
  have len: "int (length (frames cx_timeline)) = 11"
    by (simp add: cx_timeline_def)
  have a34: "aggregated (participantFrames cx_frame) [Some 3, Some 4] = []"
    by (simp add: aggregated_def cx_frame_def str_pid_def str_values)
  have "ok (team_loop (participantFrames cx_frame) [Some 1, Some 2, Some 3, Some 4, Some 5] acc0) = 1"
    unfolding team_loop_ok by (simp add: cx_aggregated acc0_def)
  then have ok: "map_of (extract_team_snapshot cx_timeline 10 [Some 1, Some 2, Some 3, Some 4, Some 5])
     ''team_m10_participants_ok'' = Some 1"
    using snapshot_some [OF cx_get_frame, of "[Some 1, Some 2, Some 3, Some 4, Some 5]"]
    by (simp add: cx_aggregated Let_def str_values del: team_loop.simps)
  then have ne: "extract_team_snapshot cx_timeline 10 [Some 1, Some 2, Some 3, Some 4, Some 5] \<noteq> []"
    by auto
  from no_snapshot_when_missing [where tlj = cx_timeline and minute = 15 and ids = "[Some 1, Some 2]"
      and ?tl8.0 = "\<lparr>frames = replicate 8 (ex_frame 0)\<rparr>"]
    no_snapshot_when_missing [where tlj = cx_timeline and minute = "- 1" and ids = "[Some 1, Some 2]"]
    no_snapshot_when_missing [where tlj = cx_timeline and minute = 10 and ids = "[Some 3, Some 4]"
      and fr = cx_frame]
    no_snapshot_when_missing [where tlj = cx_timeline and minute = 10
      and ids = "[Some 1, Some 2, Some 3, Some 4, Some 5]"]
  show ?thesis
    using len a34 ok ne cx_get_frame by simp
qed

lemma snapshot_cs:
  assumes "get_frame tlj minute = Some fr"
  shows "map_of (extract_team_snapshot tlj minute ids) (''team_m'' @ str minute @ ''_cs'') =
       (if aggregated (participantFrames fr) ids = [] then None
        else Some (sum_list (map (cs_of (participantFrames fr))
                     (aggregated (participantFrames fr) ids))))"
proof (cases "aggregated (participantFrames fr) ids = []")
  case True
  then show ?thesis by (simp add: snapshot_none_aggregated [OF assms])
next
  case False
  then show ?thesis
    by (simp add: snapshot_some [OF assms] Let_def team_loop_cs acc0_def)
qed

text \<open>
  Claim C6 as stated fails.  In the example match (ten participants, five per team), at
  minute 10 of the eleven-frame timeline, participants 1 and 2 of team 100 are present in
  the frame with creep scores 30 and 15, but participant 2 has no total gold: the
  extractor's creep-score total is 30, the sum over the present participants is 45.
\<close>

theorem team_cs_sum_counterexample:
  "length ex_participants = 10 \<and>
   length (team_ids ex_participants 100) = 5 \<and>
   length (team_ids ex_participants 200) = 5 \<and>
   get_frame cx_timeline 10 = Some cx_frame \<and>
   map_of (extract_team_snapshot cx_timeline 10 (team_ids ex_participants 100)) ''team_m10_cs''
     = Some 30 \<and>
   sum_list (map (cs_of (participantFrames cx_frame))
     (present (participantFrames cx_frame) (team_ids ex_participants 100))) = 45"
proof -
  have "map_of (extract_team_snapshot cx_timeline 10 (team_ids ex_participants 100))
      (''team_m'' @ str 10 @ ''_cs'') = Some 30"
    using snapshot_cs [OF cx_get_frame, of "team_ids ex_participants 100"]
    by (simp add: ex_team_ids cx_aggregated cx_cs_of)
  moreover have "length ex_participants = 10"
    by (simp add: ex_participants_def)
  ultimately show ?thesis
    by (simp add: ex_team_ids cx_get_frame cx_present cx_cs_of str_values)
qed

text \<open>
  Claim C6, amended.  For a match of ten participants, five on each of the teams 100 and
  200, and a queried frame that exists, the creep-score total of a team's snapshot is the
  sum of minions killed plus jungle minions killed over exactly those participants of the
  team that are present in the frame with total gold, xp and level all given; when there
  is no such participant there is no snapshot and no creep-score total.
\<close>

theorem team_cs_sum:
  "length ps = 10 \<and> length (team_ids ps 100) = 5 \<and> length (team_ids ps 200) = 5 \<and>
   (t = 100 \<or> t = 200) \<and> get_frame tlj minute = Some fr \<longrightarrow>
     map_of (extract_team_snapshot tlj minute (team_ids ps t)) (''team_m'' @ str minute @ ''_cs'') =
       (if aggregated (participantFrames fr) (team_ids ps t) = [] then None
        else Some (sum_list (map (cs_of (participantFrames fr))
                     (aggregated (participantFrames fr) (team_ids ps t)))))"
proof (rule impI)
  assume "length ps = 10 \<and> length (team_ids ps 100) = 5 \<and> length (team_ids ps 200) = 5 \<and>
    (t = 100 \<or> t = 200) \<and> get_frame tlj minute = Some fr"
  then have "get_frame tlj minute = Some fr" by simp
  then show "map_of (extract_team_snapshot tlj minute (team_ids ps t)) (''team_m'' @ str minute @ ''_cs'') =
       (if aggregated (participantFrames fr) (team_ids ps t) = [] then None
        else Some (sum_list (map (cs_of (participantFrames fr))
                     (aggregated (participantFrames fr) (team_ids ps t)))))"
    by (rule snapshot_cs)
qed

theorem team_cs_sum_witness:
  "map_of (extract_team_snapshot cx_timeline 10 (team_ids ex_participants 200)) ''team_m10_cs''
     = Some 20 \<and>
   map_of (extract_team_snapshot cx_timeline 10 (team_ids ex_participants 100)) ''team_m10_cs''
     = Some 30"
proof -
  have l: "length ex_participants = 10" by (simp add: ex_participants_def)
  from team_cs_sum [where ps = ex_participants and t = 200 and tlj = cx_timeline and minute = 10
      and fr = cx_frame]
    team_cs_sum [where ps = ex_participants and t = 100 and tlj = cx_timeline and minute = 10
      and fr = cx_frame]
  show ?thesis
    using l cx_get_frame by (simp add: ex_team_ids cx_aggregated cx_cs_of str_values)
qed

subsection \<open>The delta columns of the team row\<close>

lemma put_items_other:
  "map_of (put_items (CHR ''t'' # pre) kvs tb) (CHR ''d'' # k) = map_of tb (CHR ''d'' # k)"
  by (induction kvs arbitrary: tb) (auto simp: update_conv')

lemma snapshot_gold_xp:
  "extract_team_snapshot tlj minute ids = [] \<or>
   (\<exists>g x. map_of (extract_team_snapshot tlj minute ids) (''team_m'' @ str minute @ ''_totalGold'') = Some g \<and>
          map_of (extract_team_snapshot tlj minute ids) (''team_m'' @ str minute @ ''_xp'') = Some x)"
  by (cases "get_frame tlj minute") (simp_all add: extract_team_snapshot_def Let_def)

lemma snapshot_minute_delta:
  "map_of (snapshot_minute tlj team100 team200 m tb) (''delta_m'' @ k) =
     (let s100 = extract_team_snapshot tlj m team100;
          s200 = extract_team_snapshot tlj m team200
      in if k = str m @ ''_xp_100_minus_200'' then
           (case (map_of s100 (''team_m'' @ str m @ ''_xp''),
                  map_of s200 (''team_m'' @ str m @ ''_xp'')) of
              (Some a, Some b) \<Rightarrow> Some (CInt (a - b))
            | _ \<Rightarrow> map_of tb (''delta_m'' @ k))
         else if k = str m @ ''_gold_100_minus_200'' then
           (case (map_of s100 (''team_m'' @ str m @ ''_totalGold''),
                  map_of s200 (''team_m'' @ str m @ ''_totalGold'')) of
              (Some a, Some b) \<Rightarrow> Some (CInt (a - b))
            | _ \<Rightarrow> map_of tb (''delta_m'' @ k))
         else map_of tb (''delta_m'' @ k))"
  unfolding snapshot_minute_def Let_def
  by (simp add: update_conv' put_items_other split: option.splits)

lemma base_match_no_delta: "map_of (base_match stem m) (''delta_m'' @ k) = None"
  by (simp add: base_match_def)

lemma team_row_delta:
  assumes "team_row stem m tlj = Some r"
  shows "map_of r (''delta_m'' @ k) =
     map_of (snapshot_minute tlj (team_ids (participants m) 100) (team_ids (participants m) 200) 15
       (snapshot_minute tlj (team_ids (participants m) 100) (team_ids (participants m) 200) 10
          (base_match stem m))) (''delta_m'' @ k)"
proof -
  obtain w1 w2 where w: "win_loop (teams m) (CNone, CNone) = (w1, w2)"
    by (cases "win_loop (teams m) (CNone, CNone)")
  from assms have "r = AList.update ''team200_win'' w2 (AList.update ''team100_win'' w1
      (snapshot_minute tlj (team_ids (participants m) 100) (team_ids (participants m) 200) 15
        (snapshot_minute tlj (team_ids (participants m) 100) (team_ids (participants m) 200) 10
          (base_match stem m))))"
    by (simp add: team_row_def Let_def w SNAP_MINUTES_def split: if_splits)
  then show ?thesis
    by (simp add: update_conv')
qed

lemma snapshot_minute_gold:
  "map_of (snapshot_minute tlj team100 team200 m tb) (''delta_m'' @ str m @ ''_gold_100_minus_200'') =
     delta_of (map_of (extract_team_snapshot tlj m team100) (''team_m'' @ str m @ ''_totalGold''))
       (map_of (extract_team_snapshot tlj m team200) (''team_m'' @ str m @ ''_totalGold''))
       (map_of tb (''delta_m'' @ str m @ ''_gold_100_minus_200''))"
  unfolding snapshot_minute_delta Let_def delta_of_def by simp

lemma snapshot_minute_xp:
  "map_of (snapshot_minute tlj team100 team200 m tb) (''delta_m'' @ str m @ ''_xp_100_minus_200'') =
     delta_of (map_of (extract_team_snapshot tlj m team100) (''team_m'' @ str m @ ''_xp''))
       (map_of (extract_team_snapshot tlj m team200) (''team_m'' @ str m @ ''_xp''))
       (map_of tb (''delta_m'' @ str m @ ''_xp_100_minus_200''))"
  unfolding snapshot_minute_delta Let_def delta_of_def by simp

lemma snapshot_minute_skip:
  "k \<noteq> str m @ ''_xp_100_minus_200'' \<Longrightarrow> k \<noteq> str m @ ''_gold_100_minus_200'' \<Longrightarrow>
     map_of (snapshot_minute tlj team100 team200 m tb) (''delta_m'' @ k) = map_of tb (''delta_m'' @ k)"
  unfolding snapshot_minute_delta Let_def by simp

lemma str_10_15:
  "str 10 @ a \<noteq> str 15 @ b" "str 15 @ a \<noteq> str 10 @ b"
  by (simp_all add: str_values)

lemma team_row_gold:
  assumes r: "team_row stem m tlj = Some r" and mm: "mm = 10 \<or> mm = 15"
  shows "map_of r (''delta_m'' @ str mm @ ''_gold_100_minus_200'') =
     delta_of (map_of (extract_team_snapshot tlj mm (team_ids (participants m) 100))
                 (''team_m'' @ str mm @ ''_totalGold''))
       (map_of (extract_team_snapshot tlj mm (team_ids (participants m) 200))
                 (''team_m'' @ str mm @ ''_totalGold''))
       None"
  using mm
proof
  assume "mm = 10"
  then show ?thesis
    unfolding team_row_delta [OF r]
    by (simp only: snapshot_minute_skip [OF str_10_15(1) str_10_15(1)] snapshot_minute_gold
          base_match_no_delta)
next
  assume "mm = 15"
  then show ?thesis
    unfolding team_row_delta [OF r]
    by (simp only: snapshot_minute_skip [OF str_10_15(2) str_10_15(2)] snapshot_minute_gold
          base_match_no_delta)
qed

lemma team_row_xp:
  assumes r: "team_row stem m tlj = Some r" and mm: "mm = 10 \<or> mm = 15"
  shows "map_of r (''delta_m'' @ str mm @ ''_xp_100_minus_200'') =
     delta_of (map_of (extract_team_snapshot tlj mm (team_ids (participants m) 100))
                 (''team_m'' @ str mm @ ''_xp''))
       (map_of (extract_team_snapshot tlj mm (team_ids (participants m) 200))
                 (''team_m'' @ str mm @ ''_xp''))
       None"
  using mm
proof
  assume "mm = 10"
  then show ?thesis
    unfolding team_row_delta [OF r]
    by (simp only: snapshot_minute_skip [OF str_10_15(1) str_10_15(1)] snapshot_minute_xp
          base_match_no_delta)
next
  assume "mm = 15"
  then show ?thesis
    unfolding team_row_delta [OF r]
    by (simp only: snapshot_minute_skip [OF str_10_15(2) str_10_15(2)] snapshot_minute_xp
          base_match_no_delta)
qed

lemma delta_of_simps:
  "delta_of (Some x) (Some y) before = Some (CInt (x - y))"
  "delta_of None b before = before"
  "delta_of a None before = before"
  by (simp_all add: delta_of_def split: option.splits)

text \<open>
  Claim C5.  In the team row of a match, for each snapshot minute (10 and 15): when both
  teams have a snapshot the gold and xp delta columns hold the difference of the two
  teams' totals (team 100 minus team 200); when either snapshot is empty both delta
  columns are absent from the row.
\<close>

theorem deltas_need_both_snapshots:
  "team_row stem m tlj = Some r \<and> mm \<in> set SNAP_MINUTES \<longrightarrow>
     (let s100 = extract_team_snapshot tlj mm (team_ids (participants m) 100);
          s200 = extract_team_snapshot tlj mm (team_ids (participants m) 200);
          gold = map_of r (''delta_m'' @ str mm @ ''_gold_100_minus_200'');
          xpd = map_of r (''delta_m'' @ str mm @ ''_xp_100_minus_200'')
      in (s100 \<noteq> [] \<and> s200 \<noteq> [] \<longrightarrow>
            (\<exists>g100 g200.
               map_of s100 (''team_m'' @ str mm @ ''_totalGold'') = Some g100 \<and>
               map_of s200 (''team_m'' @ str mm @ ''_totalGold'') = Some g200 \<and>
               gold = Some (CInt (g100 - g200))) \<and>
            (\<exists>xp100 xp200.
               map_of s100 (''team_m'' @ str mm @ ''_xp'') = Some xp100 \<and>
               map_of s200 (''team_m'' @ str mm @ ''_xp'') = Some xp200 \<and>
               xpd = Some (CInt (xp100 - xp200)))) \<and>
         (s100 = [] \<or> s200 = [] \<longrightarrow> gold = None \<and> xpd = None))"
proof (rule impI)
  assume h: "team_row stem m tlj = Some r \<and> mm \<in> set SNAP_MINUTES"
  then have r: "team_row stem m tlj = Some r" and mm: "mm = 10 \<or> mm = 15"
    by (simp_all add: SNAP_MINUTES_def)
  let ?s100 = "extract_team_snapshot tlj mm (team_ids (participants m) 100)"
  let ?s200 = "extract_team_snapshot tlj mm (team_ids (participants m) 200)"
  have both: "\<exists>g100 g200.
               map_of ?s100 (''team_m'' @ str mm @ ''_totalGold'') = Some g100 \<and>
               map_of ?s200 (''team_m'' @ str mm @ ''_totalGold'') = Some g200 \<and>
               map_of r (''delta_m'' @ str mm @ ''_gold_100_minus_200'') = Some (CInt (g100 - g200))"
      "\<exists>xp100 xp200.
               map_of ?s100 (''team_m'' @ str mm @ ''_xp'') = Some xp100 \<and>
               map_of ?s200 (''team_m'' @ str mm @ ''_xp'') = Some xp200 \<and>
               map_of r (''delta_m'' @ str mm @ ''_xp_100_minus_200'') = Some (CInt (xp100 - xp200))"
    if "?s100 \<noteq> [] \<and> ?s200 \<noteq> []"
  proof -
    from that snapshot_gold_xp [of tlj mm "team_ids (participants m) 100"]
    obtain g1 x1 where 1: "map_of ?s100 (''team_m'' @ str mm @ ''_totalGold'') = Some g1"
      "map_of ?s100 (''team_m'' @ str mm @ ''_xp'') = Some x1" by blast
    from that snapshot_gold_xp [of tlj mm "team_ids (participants m) 200"]
    obtain g2 x2 where 2: "map_of ?s200 (''team_m'' @ str mm @ ''_totalGold'') = Some g2"
      "map_of ?s200 (''team_m'' @ str mm @ ''_xp'') = Some x2" by blast
    show "\<exists>g100 g200.
               map_of ?s100 (''team_m'' @ str mm @ ''_totalGold'') = Some g100 \<and>
               map_of ?s200 (''team_m'' @ str mm @ ''_totalGold'') = Some g200 \<and>
               map_of r (''delta_m'' @ str mm @ ''_gold_100_minus_200'') = Some (CInt (g100 - g200))"
      unfolding team_row_gold [OF r mm] 1 2 by (simp add: delta_of_simps)
    show "\<exists>xp100 xp200.
               map_of ?s100 (''team_m'' @ str mm @ ''_xp'') = Some xp100 \<and>
               map_of ?s200 (''team_m'' @ str mm @ ''_xp'') = Some xp200 \<and>
               map_of r (''delta_m'' @ str mm @ ''_xp_100_minus_200'') = Some (CInt (xp100 - xp200))"
      unfolding team_row_xp [OF r mm] 1 2 by (simp add: delta_of_simps)
  qed
  have missing: "map_of r (''delta_m'' @ str mm @ ''_gold_100_minus_200'') = None"
      "map_of r (''delta_m'' @ str mm @ ''_xp_100_minus_200'') = None"
    if "?s100 = [] \<or> ?s200 = []"
  proof -
    show "map_of r (''delta_m'' @ str mm @ ''_gold_100_minus_200'') = None"
      unfolding team_row_gold [OF r mm] using that
      by (rule disjE) (simp_all only: map_of.simps delta_of_simps)
    show "map_of r (''delta_m'' @ str mm @ ''_xp_100_minus_200'') = None"
      unfolding team_row_xp [OF r mm] using that
      by (rule disjE) (simp_all only: map_of.simps delta_of_simps)
  qed
  show "let s100 = extract_team_snapshot tlj mm (team_ids (participants m) 100);
          s200 = extract_team_snapshot tlj mm (team_ids (participants m) 200);
          gold = map_of r (''delta_m'' @ str mm @ ''_gold_100_minus_200'');
          xpd = map_of r (''delta_m'' @ str mm @ ''_xp_100_minus_200'')
      in (s100 \<noteq> [] \<and> s200 \<noteq> [] \<longrightarrow>
            (\<exists>g100 g200.
               map_of s100 (''team_m'' @ str mm @ ''_totalGold'') = Some g100 \<and>
               map_of s200 (''team_m'' @ str mm @ ''_totalGold'') = Some g200 \<and>
               gold = Some (CInt (g100 - g200))) \<and>
            (\<exists>xp100 xp200.
               map_of s100 (''team_m'' @ str mm @ ''_xp'') = Some xp100 \<and>
               map_of s200 (''team_m'' @ str mm @ ''_xp'') = Some xp200 \<and>
               xpd = Some (CInt (xp100 - xp200)))) \<and>
         (s100 = [] \<or> s200 = [] \<longrightarrow> gold = None \<and> xpd = None)"
    unfolding Let_def using both missing by (intro conjI impI)
qed

theorem deltas_need_both_snapshots_witness:
  "team_row ''EUW1_1'' ex_match cx_timeline = Some cx_row \<and>
   map_of cx_row ''delta_m10_gold_100_minus_200'' = Some (CInt 500) \<and>
   map_of cx_row ''delta_m10_xp_100_minus_200'' = Some (CInt 0) \<and>
   map_of cx_row ''delta_m15_gold_100_minus_200'' = None \<and>
   map_of cx_row ''delta_m15_xp_100_minus_200'' = None"
proof -
  have r: "team_row ''EUW1_1'' ex_match cx_timeline = Some cx_row"
    by (simp add: cx_row_def team_row_def ex_match_def ex_participants_def)
  have ps: "participants ex_match = ex_participants"
    by (simp add: ex_match_def)
  have mins: "10 \<in> set SNAP_MINUTES" "15 \<in> set SNAP_MINUTES"
    by (simp_all add: SNAP_MINUTES_def)
  have tot: "total_gold (team_loop (participantFrames cx_frame) [Some 1, Some 2, Some 3, Some 4, Some 5] acc0) = 3000"
    "total_gold (team_loop (participantFrames cx_frame) [Some 6, Some 7, Some 8, Some 9, Some 10] acc0) = 2500"
    "total_xp (team_loop (participantFrames cx_frame) [Some 1, Some 2, Some 3, Some 4, Some 5] acc0) = 2000"
    "total_xp (team_loop (participantFrames cx_frame) [Some 6, Some 7, Some 8, Some 9, Some 10] acc0) = 2000"
    by (simp_all add: cx_frame_def str_pid_def str_values ex_pframe_def acc0_def Let_def)
  have s10: "map_of (extract_team_snapshot cx_timeline 10 [Some 1, Some 2, Some 3, Some 4, Some 5])
        ''team_m10_totalGold'' = Some 3000"
      "map_of (extract_team_snapshot cx_timeline 10 [Some 6, Some 7, Some 8, Some 9, Some 10])
        ''team_m10_totalGold'' = Some 2500"
      "map_of (extract_team_snapshot cx_timeline 10 [Some 1, Some 2, Some 3, Some 4, Some 5])
        ''team_m10_xp'' = Some 2000"
      "map_of (extract_team_snapshot cx_timeline 10 [Some 6, Some 7, Some 8, Some 9, Some 10])
        ''team_m10_xp'' = Some 2000"
    using snapshot_some [OF cx_get_frame, of "[Some 1, Some 2, Some 3, Some 4, Some 5]"]
      snapshot_some [OF cx_get_frame, of "[Some 6, Some 7, Some 8, Some 9, Some 10]"] tot
    by (simp_all add: cx_aggregated Let_def str_values del: team_loop.simps)
  have s15: "extract_team_snapshot cx_timeline 15 ids = []" for ids
    by (rule snapshot_no_frame) (simp add: cx_timeline_def)
  from s10 have ne: "extract_team_snapshot cx_timeline 10 [Some 1, Some 2, Some 3, Some 4, Some 5] \<noteq> []"
      "extract_team_snapshot cx_timeline 10 [Some 6, Some 7, Some 8, Some 9, Some 10] \<noteq> []"
    by auto
  from deltas_need_both_snapshots [where stem = "''EUW1_1''" and m = ex_match and tlj = cx_timeline
      and r = cx_row and mm = 10]
    deltas_need_both_snapshots [where stem = "''EUW1_1''" and m = ex_match and tlj = cx_timeline
      and r = cx_row and mm = 15]
  show ?thesis
    using r mins ne s10
    by (simp add: Let_def ps ex_team_ids s15 str_values)
qed

subsection \<open>The dataset merger\<close>

lemma filter_key_distinct:
  "distinct (map right_on feat) \<Longrightarrow>
     filter (\<lambda>r. right_on r = k) feat = [] \<or> (\<exists>r. filter (\<lambda>r. right_on r = k) feat = [r])"
proof (induction feat)
  case Nil
  then show ?case by simp
next
  case (Cons a feat)
  show ?case
  proof (cases "right_on a = k")
    case True
    from Cons.prems have "right_on a \<notin> right_on ` set feat" by simp
    with True have "\<forall>r \<in> set feat. right_on r \<noteq> k" by (metis imageI)
    then have "filter (\<lambda>r. right_on r = k) feat = []" by (simp add: filter_empty_conv)
    with True show ?thesis by simp
  next
    case False
    with Cons show ?thesis by simp
  qed
qed

lemma join_row_single:
  assumes "distinct (map right_on feat)"
  shows "\<exists>new. join_row left_on right_on feat l = [(l, new)] \<and>
           (case new of
              None \<Rightarrow> left_on l \<notin> right_on ` set feat
            | Some r \<Rightarrow> r \<in> set feat \<and> right_on r = left_on l)"
proof -
  from filter_key_distinct [OF assms, of "left_on l"]
  show ?thesis
  proof
    assume e: "filter (\<lambda>r. right_on r = left_on l) feat = []"
    then have "left_on l \<notin> right_on ` set feat"
      by (auto simp: filter_empty_conv)
    with e show ?thesis by simp
  next
    assume "\<exists>r. filter (\<lambda>r. right_on r = left_on l) feat = [r]"
    then obtain r where r: "filter (\<lambda>r. right_on r = left_on l) feat = [r]" ..
    then have "r \<in> set (filter (\<lambda>r. right_on r = left_on l) feat)" by simp
    then have "r \<in> set feat \<and> right_on r = left_on l" by simp
    with r show ?thesis by simp
  qed
qed

lemma merge_left_rows:
  assumes "distinct (map right_on feat)"
  shows "map fst (merge_left left_on right_on base_table feat) = base_table"
proof -
  have "map fst (concat (map (join_row left_on right_on feat) bs)) = bs" for bs
  proof (induction bs)
    case Nil
    then show ?case by simp
  next
    case (Cons l bs)
    from join_row_single [OF assms, of left_on l]
    obtain new where "join_row left_on right_on feat l = [(l, new)]" by blast
    with Cons show ?case by (simp del: join_row.simps)
  qed
  then show ?thesis by (simp add: merge_left_def)
qed

lemma merge_left_new_columns:
  assumes "distinct (map right_on feat)"
    and "(l, new) \<in> set (merge_left left_on right_on base_table feat)"
  shows "case new of
           None \<Rightarrow> left_on l \<notin> right_on ` set feat
         | Some r \<Rightarrow> r \<in> set feat \<and> right_on r = left_on l"
proof -
  from assms(2) obtain b where b: "b \<in> set base_table"
    and m: "(l, new) \<in> set (join_row left_on right_on feat b)"
    by (auto simp: merge_left_def simp del: join_row.simps)
  from join_row_single [OF assms(1), of left_on b]
  obtain n where n: "join_row left_on right_on feat b = [(b, n)]"
    and c: "case n of None \<Rightarrow> left_on b \<notin> right_on ` set feat
            | Some r \<Rightarrow> r \<in> set feat \<and> right_on r = left_on b"
    by blast
  from m n have "l = b" "new = n" by simp_all
  with c show ?thesis by (simp split: option.splits)
qed

lemma objectives_rows_keys:
  "map (\<lambda>r. map_of r ''match_id'') (objectives_rows files) = map (\<lambda>f. Some (CStr (fst f))) files"
  by (simp add: objectives_rows_def compute_features_def features_row_def split_def)

lemma more_row_match_id:
  "map_of (more_row to_int match_id m tlj) ''match_id'' = Some (CStr match_id)"
proof -
  have keys: "fst ` set (count_wards frs p2t) =
      {''diff_wardsPlaced10'', ''diff_wardsKilled10'', ''diff_ctrlWardsPlaced10'',
       ''diff_wardsPlaced15'', ''diff_wardsKilled15'', ''diff_ctrlWardsPlaced15''}" for frs p2t
    by (simp add: count_wards_def Let_def)
  have "map_of (dict_update r (count_wards frs p2t)) ''match_id'' = map_of r ''match_id''"
    for r frs p2t
    by (rule map_of_dict_update_other) (simp add: keys)
  then show ?thesis by (simp add: more_row_def Let_def)
qed

lemma more_rows_keys:
  "map (\<lambda>r. map_of r ''match_id'') (more_rows to_int files) = map (\<lambda>f. Some (CStr (fst f))) files"
  by (simp add: more_rows_def more_row_match_id split_def)

lemma distinct_stem_keys:
  "distinct (map fst files) \<Longrightarrow> distinct (map (\<lambda>f. Some (CStr (fst f))) files)"
  by (simp add: distinct_map inj_on_def)

lemma sorted_table_distinct:
  assumes "mset tab = mset rows" and "distinct (map key rows)"
  shows "distinct (map key tab)"
proof -
  from assms(1) have "mset (map key tab) = mset (map key rows)" by simp
  then show ?thesis using assms(2) by (metis mset_eq_imp_distinct_iff)
qed

text \<open>
  Claim C8.  When the feature table has one row per match identifier, the left join
  returns the rows of the base table, each once and in the base table's order (so the row
  count is the base table's); a base row whose identifier is not in the feature table gets
  missing values for the new columns, and any other base row gets the feature row of its
  identifier.  The tables that the two stages build, one row per timeline file keyed by
  the file's stem and then sorted, are of this kind, so merging them onto any base table
  keeps its rows.
\<close>

theorem left_join_keeps_base_rows:
  "(distinct (map right_on feat) \<longrightarrow>
      map fst (merge_left left_on right_on base_table feat) = base_table \<and>
      length (merge_left left_on right_on base_table feat) = length base_table \<and>
      (\<forall>(l, new) \<in> set (merge_left left_on right_on base_table feat).
         (left_on l \<notin> right_on ` set feat \<longrightarrow> new = None) \<and>
         (\<forall>r. new = Some r \<longrightarrow> r \<in> set feat \<and> right_on r = left_on l))) \<and>
   (distinct (map fst files) \<and> mset obj_tab = mset (objectives_rows files) \<longrightarrow>
      map fst (merge_left key_col (\<lambda>r. map_of r ''match_id'') teams_table obj_tab) = teams_table \<and>
      length (merge_left key_col (\<lambda>r. map_of r ''match_id'') teams_table obj_tab) = length teams_table) \<and>
   (distinct (map fst files) \<and> mset more_tab = mset (more_rows to_int files) \<longrightarrow>
      map fst (merge_left key_col (\<lambda>r. map_of r ''match_id'') teams_table more_tab) = teams_table \<and>
      length (merge_left key_col (\<lambda>r. map_of r ''match_id'') teams_table more_tab) = length teams_table)"
proof (intro conjI impI)
  assume d: "distinct (map right_on feat)"
  show rows: "map fst (merge_left left_on right_on base_table feat) = base_table"
    by (rule merge_left_rows [OF d])
  from arg_cong [OF rows, of length]
  show "length (merge_left left_on right_on base_table feat) = length base_table"
    by simp
  show "\<forall>(l, new) \<in> set (merge_left left_on right_on base_table feat).
         (left_on l \<notin> right_on ` set feat \<longrightarrow> new = None) \<and>
         (\<forall>r. new = Some r \<longrightarrow> r \<in> set feat \<and> right_on r = left_on l)"
  proof (clarify, intro conjI impI allI)
    fix l new
    assume m: "(l, new) \<in> set (merge_left left_on right_on base_table feat)"
    note c = merge_left_new_columns [OF d m]
    show "new = None" if u: "left_on l \<notin> right_on ` set feat"
    proof (cases new)
      case None
      then show ?thesis .
    next
      case (Some r)
      with c have "r \<in> set feat" and "right_on r = left_on l" by simp_all
      then have "left_on l \<in> right_on ` set feat" by (metis imageI)
      with u show ?thesis by simp
    qed
    show "r \<in> set feat" if "new = Some r" for r
      using c that by simp
    show "right_on r = left_on l" if "new = Some r" for r
      using c that by simp
  qed
next
  assume h: "distinct (map fst files) \<and> mset obj_tab = mset (objectives_rows files)"
  then have "distinct (map (\<lambda>r. map_of r ''match_id'') (objectives_rows files))"
    by (simp only: objectives_rows_keys distinct_stem_keys)
  with h have d: "distinct (map (\<lambda>r. map_of r ''match_id'') obj_tab)"
    by (simp add: sorted_table_distinct)
  show rows: "map fst (merge_left key_col (\<lambda>r. map_of r ''match_id'') teams_table obj_tab) = teams_table"
    by (rule merge_left_rows [OF d])
  from arg_cong [OF rows, of length]
  show "length (merge_left key_col (\<lambda>r. map_of r ''match_id'') teams_table obj_tab) = length teams_table"
    by simp
next
  assume h: "distinct (map fst files) \<and> mset more_tab = mset (more_rows to_int files)"
  then have "distinct (map (\<lambda>r. map_of r ''match_id'') (more_rows to_int files))"
    by (simp only: more_rows_keys distinct_stem_keys)
  with h have d: "distinct (map (\<lambda>r. map_of r ''match_id'') more_tab)"
    by (simp add: sorted_table_distinct)
  show rows: "map fst (merge_left key_col (\<lambda>r. map_of r ''match_id'') teams_table more_tab) = teams_table"
    by (rule merge_left_rows [OF d])
  from arg_cong [OF rows, of length]
  show "length (merge_left key_col (\<lambda>r. map_of r ''match_id'') teams_table more_tab) = length teams_table"
    by simp
qed

theorem left_join_keeps_base_rows_witness:
  "map fst (merge_left (\<lambda>r. map_of r ''matchId'') (\<lambda>r. map_of r ''match_id'') ex_teams_table
      (objectives_rows ex_files)) = ex_teams_table \<and>
   length (merge_left (\<lambda>r. map_of r ''matchId'') (\<lambda>r. map_of r ''match_id'') ex_teams_table
      (more_rows ex_to_int ex_files)) = 3 \<and>
   map snd (merge_left fst fst [(''EUW1_1'', 1 :: int), (''EUW1_2'', 0)] [(''EUW1_1'', 7 :: int)])
     = [Some (''EUW1_1'', 7), None]"
proof -
  have d: "distinct (map fst ex_files)"
    by (simp add: ex_files_def)
  have l: "length ex_teams_table = 3"
    by (simp add: ex_teams_table_def)
  have e: "distinct (map fst [(''EUW1_1'', 7 :: int)])"
    by simp
  have s: "map snd (merge_left fst fst [(''EUW1_1'', 1 :: int), (''EUW1_2'', 0)] [(''EUW1_1'', 7 :: int)])
     = [Some (''EUW1_1'', 7), None]"
    by (simp add: merge_left_def)
  from left_join_keeps_base_rows [where files = ex_files and obj_tab = "objectives_rows ex_files"
      and more_tab = "more_rows ex_to_int ex_files" and to_int = ex_to_int
      and key_col = "\<lambda>r. map_of r ''matchId''" and teams_table = ex_teams_table
      and right_on = fst and left_on = fst and feat = "[(''EUW1_1'', 7 :: int)]"
      and base_table = "[(''EUW1_1'', 1 :: int), (''EUW1_2'', 0)]"]
  show ?thesis
    using d l e s by simp
qed

end
